theory Spec2Isabelle
  imports Main "HOL-Library.Sublist" "HOL-Library.AList" "HOL-Library.Multiset"
begin

section \<open>Go library functions used by the manager\<close>

text \<open>
  A Go \<open>string\<close> is a sequence of bytes, here a \<open>char list\<close>. The functions of package
  \<open>strings\<close> and \<open>strconv\<close> that the manager calls are written out on bytes. An index
  result of \<open>-1\<close> is \<open>None\<close>.
\<close>

definition HasPrefix :: "string \<Rightarrow> string \<Rightarrow> bool" where
  "HasPrefix s p = prefix p s"

fun Index :: "string \<Rightarrow> string \<Rightarrow> nat option" where
  "Index [] sep = (if sep = [] then Some 0 else None)"
| "Index (c # t) sep =
     (if HasPrefix (c # t) sep then Some 0 else map_option Suc (Index t sep))"

fun LastIndex :: "string \<Rightarrow> string \<Rightarrow> nat option" where
  "LastIndex [] sep = (if sep = [] then Some 0 else None)"
| "LastIndex (c # t) sep =
     (case LastIndex t sep of
        Some i \<Rightarrow> Some (Suc i)
      | None \<Rightarrow> (if HasPrefix (c # t) sep then Some 0 else None))"

definition Contains :: "string \<Rightarrow> string \<Rightarrow> bool" where
  "Contains s substr = (Index s substr \<noteq> None)"

text \<open>\<open>strings.Trim\<close> with a cutset of ASCII characters removes them from both ends.\<close>

definition Trim :: "string \<Rightarrow> string \<Rightarrow> string" where
  "Trim s cutset =
     rev (dropWhile (\<lambda>c. c \<in> set cutset) (rev (dropWhile (\<lambda>c. c \<in> set cutset) s)))"

text \<open>
  White space as \<open>unicode.IsSpace\<close> defines it, each code point in its UTF-8 encoding:
  U+0009 to U+000D, U+0020, U+0085, U+00A0, U+1680, U+2000 to U+200A, U+2028, U+2029,
  U+202F, U+205F and U+3000. No encoding starts with a continuation byte, so looking
  for these byte sequences at a byte position agrees with decoding runes.
\<close>

definition spaceRunes :: "string list" where
  "spaceRunes =
     [[CHR 0x09], [CHR 0x0A], [CHR 0x0B], [CHR 0x0C], [CHR 0x0D], [CHR 0x20],
      [CHR 0xC2, CHR 0x85], [CHR 0xC2, CHR 0xA0], [CHR 0xE1, CHR 0x9A, CHR 0x80],
      [CHR 0xE2, CHR 0x80, CHR 0x80], [CHR 0xE2, CHR 0x80, CHR 0x81],
      [CHR 0xE2, CHR 0x80, CHR 0x82], [CHR 0xE2, CHR 0x80, CHR 0x83],
      [CHR 0xE2, CHR 0x80, CHR 0x84], [CHR 0xE2, CHR 0x80, CHR 0x85],
      [CHR 0xE2, CHR 0x80, CHR 0x86], [CHR 0xE2, CHR 0x80, CHR 0x87],
      [CHR 0xE2, CHR 0x80, CHR 0x88], [CHR 0xE2, CHR 0x80, CHR 0x89],
      [CHR 0xE2, CHR 0x80, CHR 0x8A], [CHR 0xE2, CHR 0x80, CHR 0xA8],
      [CHR 0xE2, CHR 0x80, CHR 0xA9], [CHR 0xE2, CHR 0x80, CHR 0xAF],
      [CHR 0xE2, CHR 0x81, CHR 0x9F], [CHR 0xE3, CHR 0x80, CHR 0x80]]"

text \<open>The number of bytes of the rune of \<open>runes\<close> that \<open>s\<close> starts with, 0 if none.\<close>

definition spaceWidth :: "string list \<Rightarrow> string \<Rightarrow> nat" where
  "spaceWidth runes s =
     (case find (HasPrefix s) runes of None \<Rightarrow> 0 | Some r \<Rightarrow> length r)"

function trimLeftRunes :: "string list \<Rightarrow> string \<Rightarrow> string" where
  "trimLeftRunes runes s =
     (if spaceWidth runes s = 0 then s
      else trimLeftRunes runes (drop (spaceWidth runes s) s))"
  by pat_completeness auto
termination
proof (relation "measure (\<lambda>(runes, s). length s)")
  show "wf (measure (\<lambda>(runes, s). length s))" by simp
next
  fix runes :: "string list" and s :: string
  assume a: "spaceWidth runes s \<noteq> 0"
  then obtain r where r: "find (HasPrefix s) runes = Some r" "r \<noteq> []"
    by (auto simp: spaceWidth_def split: option.splits)
  then have "HasPrefix s r" by (auto simp: find_Some_iff)
  with r have "s \<noteq> []" by (auto simp: HasPrefix_def)
  with a show "((runes, drop (spaceWidth runes s) s), (runes, s))
                 \<in> measure (\<lambda>(runes, s). length s)"
    by simp
qed

declare trimLeftRunes.simps [simp del]

text \<open>\<open>strings.TrimSpace\<close>: leading white space is removed, then trailing white space.\<close>

definition TrimSpace :: "string \<Rightarrow> string" where
  "TrimSpace s =
     rev (trimLeftRunes (map rev spaceRunes) (rev (trimLeftRunes spaceRunes s)))"

text \<open>
  \<open>strconv.Atoi\<close> on a 64-bit platform: an optional sign, then one or more decimal
  digits; an error (\<open>None\<close>) for any other text and for a value outside the range of
  \<open>int\<close>.
\<close>

definition isDigit :: "char \<Rightarrow> bool" where
  "isDigit c = (48 \<le> (of_char c :: int) \<and> (of_char c :: int) \<le> 57)"

definition digitsValue :: "string \<Rightarrow> int" where
  "digitsValue ds = foldl (\<lambda>n c. 10 * n + ((of_char c :: int) - 48)) 0 ds"

definition Atoi :: "string \<Rightarrow> int option" where
  "Atoi s =
     (let neg = (case s of c # _ \<Rightarrow> c = CHR ''-'' | [] \<Rightarrow> False);
          ds = (case s of c # r \<Rightarrow> (if c = CHR ''+'' \<or> c = CHR ''-'' then r else s)
                        | [] \<Rightarrow> s)
      in if ds = [] \<or> \<not> list_all isDigit ds then None
         else (let v = (if neg then - digitsValue ds else digitsValue ds)
               in if v < - (2 ^ 63) \<or> 2 ^ 63 - 1 < v then None else Some v))"

text \<open>
  \<open>strings.Fields\<close>: the maximal runs of bytes between white space. \<open>cur\<close> is the field
  being read.
\<close>

function fieldsFrom :: "string \<Rightarrow> string \<Rightarrow> string list" where
  "fieldsFrom cur [] = (if cur = [] then [] else [cur])"
| "fieldsFrom cur (c # t) =
     (if spaceWidth spaceRunes (c # t) = 0 then fieldsFrom (cur @ [c]) t
      else (if cur = [] then [] else [cur])
           @ fieldsFrom [] (drop (spaceWidth spaceRunes (c # t) - 1) t))"
  by pat_completeness auto
termination
  by (relation "measure (\<lambda>(cur, s). length s)") auto

definition Fields :: "string \<Rightarrow> string list" where
  "Fields s = fieldsFrom [] s"

text \<open>
  Replacement of all non-overlapping matches, leftmost first, as
  \<open>Regexp.ReplaceAllString\<close> and \<open>strings.ReplaceAll\<close> do. The matcher gives the length
  of the match that starts at the head of its argument; the patterns used here never
  match the empty string.
\<close>

fun replaceMatches :: "(string \<Rightarrow> nat option) \<Rightarrow> string \<Rightarrow> string \<Rightarrow> string" where
  "replaceMatches m repl [] = []"
| "replaceMatches m repl (c # t) =
     (case m (c # t) of
        Some (Suc n) \<Rightarrow> repl @ replaceMatches m repl (drop n t)
      | _ \<Rightarrow> c # replaceMatches m repl t)"

definition matchLiteral :: "string \<Rightarrow> string \<Rightarrow> nat option" where
  "matchLiteral old s = (if HasPrefix s old then Some (length old) else None)"

definition ReplaceAll :: "string \<Rightarrow> string \<Rightarrow> string \<Rightarrow> string" where
  "ReplaceAll s old new = replaceMatches (matchLiteral old) new s"

text \<open>\<open>strconv.Itoa\<close> and the verb \<open>%d\<close> of \<open>fmt.Sprintf\<close>.\<close>

function intDigits :: "int \<Rightarrow> string" where
  "intDigits i =
     (if i < 10 then [char_of (48 + i)]
      else intDigits (i div 10) @ [char_of (48 + i mod 10)])"
  by pat_completeness auto
termination
  by (relation "measure nat") auto

declare intDigits.simps [simp del]

definition Itoa :: "int \<Rightarrow> string" where
  "Itoa i = (if i < 0 then CHR ''-'' # intDigits (- i) else intDigits i)"

text \<open>\<open>strings.Split\<close> with a separator of one byte, and \<open>strings.Join\<close>.\<close>

fun splitByte :: "char \<Rightarrow> string \<Rightarrow> string list" where
  "splitByte sep [] = [[]]"
| "splitByte sep (c # t) =
     (if c = sep then [] # splitByte sep t
      else (case splitByte sep t of
              [] \<Rightarrow> [[c]]
            | x # xs \<Rightarrow> (c # x) # xs))"

definition Join :: "string list \<Rightarrow> string \<Rightarrow> string" where
  "Join elems sep = concat (case elems of [] \<Rightarrow> [] | x # xs \<Rightarrow> x # map (\<lambda>e. sep @ e) xs)"

section \<open>Port extraction\<close>

text \<open>
  \<open>extractPortFromLsofName\<close> reads the NAME column of \<open>lsof\<close>
  (\<open>*:5173\<close>, \<open>localhost:5173\<close>, \<open>[::1]:5173\<close>, possibly followed by \<open>(LISTEN)\<close>);
  \<open>extractPortFromAddr\<close> reads the address column of \<open>netstat\<close> and \<open>ss\<close>
  (\<open>0.0.0.0:5173\<close>, \<open>:::5173\<close>, \<open>*:5173\<close>). Both return 0 for "no port".
\<close>

definition extractPortFromLsofName :: "string \<Rightarrow> int" where
  "extractPortFromLsofName name0 =
     (let name = Trim name0 ''[]''
      in (case LastIndex name '':'' of
            None \<Rightarrow> 0
          | Some lastColon \<Rightarrow>
              (let portStr0 = drop (lastColon + 1) name;
                   portStr = (case Index portStr0 ''('' of
                                Some parenIdx \<Rightarrow> take parenIdx portStr0
                              | None \<Rightarrow> portStr0)
               in (case Atoi (TrimSpace portStr) of
                     None \<Rightarrow> 0
                   | Some port \<Rightarrow> (if port \<le> 0 \<or> port > 65535 then 0 else port)))))"

definition extractPortFromAddr :: "string \<Rightarrow> int" where
  "extractPortFromAddr addr =
     (case LastIndex addr '':'' of
        None \<Rightarrow> 0
      | Some lastColon \<Rightarrow>
          (let portStr = drop (lastColon + 1) addr
           in (case Atoi portStr of
                 None \<Rightarrow> 0
               | Some port \<Rightarrow> (if port \<le> 0 \<or> port > 65535 then 0 else port))))"

text \<open>
  The specification's wording of port extraction, for comparison with the two functions
  above: the port is the substring after the last \<open>:\<close> of the address, stripped of a
  trailing \<open>(...)\<close> annotation (and of surrounding white space), rejected (0) if it is
  not a positive integer of at most 65535.
\<close>

definition spec_stripAnnotation :: "string \<Rightarrow> string" where
  "spec_stripAnnotation s =
     (if s \<noteq> [] \<and> last s = CHR '')''
      then (case LastIndex s ''('' of Some i \<Rightarrow> take i s | None \<Rightarrow> s)
      else s)"

definition spec_extractPort :: "string \<Rightarrow> int" where
  "spec_extractPort addr =
     (case LastIndex addr '':'' of
        None \<Rightarrow> 0
      | Some i \<Rightarrow>
          (case Atoi (TrimSpace (spec_stripAnnotation (drop (i + 1) addr))) of
             None \<Rightarrow> 0
           | Some p \<Rightarrow> (if 1 \<le> p \<and> p \<le> 65535 then p else 0)))"

section \<open>Stripping terminal control sequences\<close>

text \<open>
  The regular expressions of \<open>stripANSI\<close> are written as matchers: the length of the
  match at the head of the string, if there is one. In each pattern the repeated class
  \<open>[0-9;]\<close> and the character that must follow it are disjoint, so the longest run of
  parameter bytes is the only candidate and no backtracking is needed. \<open>\s\<close> is the
  class of tab, newline, form feed, carriage return and space.
\<close>

definition isParamByte :: "char \<Rightarrow> bool" where
  "isParamByte c = (isDigit c \<or> c = CHR '';'')"

definition isLetter :: "char \<Rightarrow> bool" where
  "isLetter c = ((65 \<le> (of_char c :: int) \<and> (of_char c :: int) \<le> 90)
               \<or> (97 \<le> (of_char c :: int) \<and> (of_char c :: int) \<le> 122))"

definition isRegexSpace :: "char \<Rightarrow> bool" where
  "isRegexSpace c = (c \<in> set [CHR 0x09, CHR 0x0A, CHR 0x0C, CHR 0x0D, CHR 0x20])"

definition ESC :: char where
  "ESC = CHR 0x1B"

definition backslash :: char where
  "backslash = CHR 0x5C"

text \<open>The pattern \<open>intro \[[0-9;]*[a-zA-Z]\<close>, for a literal \<open>intro\<close>.\<close>

definition matchCSI :: "string \<Rightarrow> string \<Rightarrow> nat option" where
  "matchCSI intro s =
     (if HasPrefix s (intro @ ''['')
      then (let r = drop (length intro + 1) s;
                ps = takeWhile isParamByte r
            in (case drop (length ps) r of
                  [] \<Rightarrow> None
                | c # _ \<Rightarrow> (if isLetter c then Some (length intro + 1 + length ps + 1)
                            else None)))
      else None)"

text \<open>The pattern \<open>\[[0-9;]+m\<close>.\<close>

definition matchResidue :: "string \<Rightarrow> nat option" where
  "matchResidue s =
     (if HasPrefix s ''[''
      then (let r = drop 1 s; ps = takeWhile isParamByte r
            in (if ps \<noteq> [] \<and> HasPrefix (drop (length ps) r) ''m''
                then Some (1 + length ps + 1) else None))
      else None)"

text \<open>The pattern \<open>\s+\<close>.\<close>

definition matchSpaces :: "string \<Rightarrow> nat option" where
  "matchSpaces s =
     (let n = length (takeWhile isRegexSpace s) in if n = 0 then None else Some n)"

text \<open>
  \<open>stripANSI\<close>, step by step as in the source: the JSON-escaped sequences
  (backslash, \<open>u001b\<close>, \<open>[\<close>, parameters, letter), the true sequences (ESC, \<open>[\<close>,
  parameters, letter), the four literal replacements (the Go literals \<open>"\u001b"\<close> and
  \<open>"\033"\<close> both denote the byte ESC), the residue \<open>[\<close> parameters \<open>m\<close>, runs of
  white space, then \<open>strings.TrimSpace\<close>.
\<close>

definition stripANSI :: "string \<Rightarrow> string" where
  "stripANSI s =
     (let result = replaceMatches (matchCSI (backslash # ''u001b'')) [] s;
          result = replaceMatches (matchCSI [ESC]) [] result;
          result = ReplaceAll result [ESC] [];
          result = ReplaceAll result [ESC] [];
          result = ReplaceAll result (backslash # ''u001b'') [];
          result = ReplaceAll result (backslash # ''033'') [];
          result = replaceMatches matchResidue [] result;
          result = replaceMatches matchSpaces '' '' result
      in TrimSpace result)"

section \<open>Service manager of go-runner: data model\<close>

text \<open>
  The manager (package \<open>service\<close>) tracks one \<open>ProcessInfo\<close> per running project. The
  buffered channel \<open>Logs\<close> is modelled by its queue of pending lines, its capacity and
  whether it has been closed. \<open>Process\<close> holds the PID of the started child
  (\<open>Process.Process\<close> in the source), \<open>None\<close> while the child has not been started.
  \<open>Cancelled\<close> records that the \<open>Cancel\<close> function of the context has been called.
\<close>

record LogChan =
  queue :: "string list"
  capacity :: nat
  chan_closed :: bool

record ProcessInfo =
  ProjectID :: nat
  Process :: "int option"
  Cancelled :: bool
  StartTime :: nat
  Logs :: LogChan
  LogBuffer :: "string list"
  closed :: bool

subsection \<open>The log ring\<close>

definition maxBufferSize :: nat where
  "maxBufferSize = 1000"

text \<open>
  \<open>addToLogBuffer\<close>: append the line, then keep only the last \<open>maxBufferSize\<close> lines
  (\<open>p.LogBuffer[len(p.LogBuffer)-maxBufferSize:]\<close>).
\<close>

definition addToLogBuffer :: "string \<Rightarrow> ProcessInfo \<Rightarrow> ProcessInfo" where
  "addToLogBuffer line p =
     (let b = LogBuffer p @ [line]
      in p\<lparr>LogBuffer := (if length b > maxBufferSize
                          then drop (length b - maxBufferSize) b else b)\<rparr>)"

text \<open>A sequence of calls of \<open>addToLogBuffer\<close>, in order.\<close>

fun addAllToLogBuffer :: "string list \<Rightarrow> ProcessInfo \<Rightarrow> ProcessInfo" where
  "addAllToLogBuffer [] p = p"
| "addAllToLogBuffer (l # ls) p = addAllToLogBuffer ls (addToLogBuffer l p)"

subsection \<open>The live channel and the capture of one line\<close>

text \<open>
  \<open>safeSendLog\<close>: a \<open>select\<close> with a \<open>default\<close> branch. A send on a closed channel panics
  and the deferred \<open>recover\<close> makes the function return \<open>false\<close>; a send on a channel
  whose buffer is full takes the \<open>default\<close> branch.
\<close>

definition safeSendLog :: "LogChan \<Rightarrow> string \<Rightarrow> bool \<times> LogChan" where
  "safeSendLog ch logLine =
     (if chan_closed ch then (False, ch)
      else if length (queue ch) < capacity ch
           then (True, ch\<lparr>queue := queue ch @ [logLine]\<rparr>)
           else (False, ch))"

text \<open>
  To state what holds at the moment a line is sent, the capturer is followed together with
  a record of its sends: each send that the channel accepts is entered with the line and
  the ring of the handle as it is when \<open>safeSendLog\<close> is called. The record is not state
  of the program; nothing reads it.
\<close>

datatype emission = Emitted string "string list"

fun emittedLine :: "emission \<Rightarrow> string" where
  "emittedLine (Emitted l ring) = l"

text \<open>The line of a send had been appended: it is the newest entry of the ring.\<close>

fun appendedBefore :: "emission \<Rightarrow> bool" where
  "appendedBefore (Emitted l ring) = (ring \<noteq> [] \<and> last ring = l)"

text \<open>The statement \<open>safeSendLog(processInfo.Logs, logLine)\<close> of the capturer.\<close>

definition sendToLogs ::
  "string \<Rightarrow> ProcessInfo \<times> emission list \<Rightarrow> ProcessInfo \<times> emission list" where
  "sendToLogs logLine s =
     (case s of (p, tr) \<Rightarrow>
        (let r = safeSendLog (Logs p) logLine
         in (p\<lparr>Logs := snd r\<rparr>,
             if fst r then tr @ [Emitted logLine (LogBuffer p)] else tr)))"

definition safeCloseChannel :: "ProcessInfo \<Rightarrow> ProcessInfo" where
  "safeCloseChannel p =
     (if closed p then p
      else p\<lparr>Logs := (Logs p)\<lparr>chan_closed := True\<rparr>, closed := True\<rparr>)"

definition getLogBuffer :: "ProcessInfo \<Rightarrow> string list" where
  "getLogBuffer p = LogBuffer p"

definition formatLogLine :: "bool \<Rightarrow> string \<Rightarrow> string" where
  "formatLogLine isStderr cleanLine =
     (if isStderr then ''[ERROR] '' @ cleanLine else cleanLine)"

text \<open>
  The effect on the handle of one iteration of the loop of \<open>captureOutputWithBuffer\<close>:
  strip, skip an empty line, tag, append to the ring, then send.
\<close>

definition captureLine ::
  "bool \<Rightarrow> string \<Rightarrow> ProcessInfo \<times> emission list \<Rightarrow> ProcessInfo \<times> emission list" where
  "captureLine isStderr line s =
     (case s of (p, tr) \<Rightarrow>
        (let cleanLine = stripANSI line
         in if cleanLine = [] then (p, tr)
            else (let logLine = formatLogLine isStderr cleanLine
                  in sendToLogs logLine (addToLogBuffer logLine p, tr))))"

section \<open>The catalog, the host and the manager\<close>

text \<open>
  A row of table \<open>projects\<close>. The columns the manager reads or writes are kept;
  \<open>StartTime_col\<close> and \<open>Logs_col\<close> are the columns \<open>start_time\<close> and \<open>logs\<close> (the names
  \<open>StartTime\<close> and \<open>Logs\<close> are fields of \<open>ProcessInfo\<close>). Times are in milliseconds.
\<close>

record Project =
  Name :: string
  Type :: string
  Path :: string
  Command :: string
  Args :: string
  WorkingDir :: string
  Port :: int
  Environment :: string
  EnvFile :: string
  EnvVars :: string
  Status :: string
  PID :: int
  StartTime_col :: "nat option"
  StopTime :: "nat option"
  LastError :: string
  Logs_col :: string

definition StatusStopped :: string where "StatusStopped = ''stopped''"
definition StatusStarting :: string where "StatusStarting = ''starting''"
definition StatusRunning :: string where "StatusRunning = ''running''"
definition StatusStopping :: string where "StatusStopping = ''stopping''"
definition StatusError :: string where "StatusError = ''error''"

text \<open>
  What the manager observes of the operating system: the clock, whether
  \<open>os.FindProcess\<close> succeeds for a PID, whether the system call \<open>kill(pid, sig)\<close> returns
  no error (with \<open>sig = 0\<close> nothing is delivered: this is the signal-0 probe, answered by
  a process that exists), the output of \<open>pgrep -P pid\<close> when it exits with status 0, whether
  \<open>lsof -i :port -sTCP:LISTEN\<close> and \<open>lsof -i :port\<close> exit with status 0, the output of
  \<open>netstat -an\<close> and \<open>ss -an\<close> when they succeed, the environment of the supervisor and
  the readable files (\<open>None\<close> for a file that does not exist or cannot be read).
\<close>

record Host =
  now :: nat
  FindProcess_ok :: "int \<Rightarrow> bool"
  syscall_Kill :: "int \<Rightarrow> nat \<Rightarrow> bool"
  pgrep_P :: "int \<Rightarrow> string option"
  lsof_listen_ok :: "int \<Rightarrow> bool"
  lsof_ok :: "int \<Rightarrow> bool"
  netstat_an :: "string option"
  ss_an :: "string option"
  Environ :: "string list"
  ReadFile :: "string \<Rightarrow> string option"

text \<open>
  A value of a JSON object as \<open>json.Unmarshal\<close> decodes it into \<open>interface{}\<close>. A number
  carries the text that \<open>strconv.FormatFloat(val, 'f', -1, 64)\<close> gives for it, any other
  value (array, object) the text that \<open>%v\<close> gives.
\<close>

datatype JValue = JString string | JNumber string | JBool bool | JNull | JOther string

text \<open>The fields of \<open>exec.Cmd\<close> that the manager sets.\<close>

record Cmd =
  Path_cmd :: string
  Args_cmd :: "string list"
  Dir :: string
  Env :: "string list"

text \<open>
  The behaviour of the operating system and of the Go runtime that the manager relies on
  and does not determine: the host after a kill, after a sleep (in milliseconds) and
  after the cancellation of a child's context; whether \<open>Process.Wait\<close> returns within a
  delay; the error that \<open>cmd.Wait\<close> returns once the child has ended (\<open>None\<close> for \<open>nil\<close>,
  else the text of the error, such as \<open>exit status 1\<close> or \<open>signal: killed\<close>); the path that
  \<open>exec.LookPath\<close> finds for a command name; the errors of \<open>cmd.StdoutPipe\<close> and
  \<open>cmd.StderrPipe\<close> (\<open>None\<close> when the pipe is made); the result of \<open>cmd.Start\<close> (an error
  text or the PID); the order in which \<open>range\<close> visits a map; \<open>filepath.Join\<close>;
  \<open>json.Unmarshal\<close> into a map; the escaping of a string by \<open>json.Marshal\<close>. Every
  theorem holds for all platforms, or states what it assumes of one.
\<close>

record Platform =
  after_Kill :: "int \<Rightarrow> Host \<Rightarrow> Host"
  after_Sleep :: "nat \<Rightarrow> Host \<Rightarrow> Host"
  after_Cancel :: "int option \<Rightarrow> Host \<Rightarrow> Host"
  Wait_within :: "nat \<Rightarrow> int option \<Rightarrow> Host \<Rightarrow> bool"
  Wait_error :: "int option \<Rightarrow> Host \<Rightarrow> string option"
  LookPath :: "string \<Rightarrow> string option"
  StdoutPipe_error :: "Cmd \<Rightarrow> Host \<Rightarrow> string option"
  StderrPipe_error :: "Cmd \<Rightarrow> Host \<Rightarrow> string option"
  cmd_Start :: "Cmd \<Rightarrow> Host \<Rightarrow> (string + int) \<times> Host"
  range_order :: "(string \<times> string) list \<Rightarrow> (string \<times> string) list"
  filepath_Join :: "string \<Rightarrow> string \<Rightarrow> string"
  json_Unmarshal :: "string \<Rightarrow> (string \<times> JValue) list option"
  json_escape :: "string \<Rightarrow> string"

text \<open>
  The goroutines that \<open>StartService\<close> starts for a handle, each with the reference to the
  handle it was given: the two capturers \<open>captureOutputWithBuffer(stdout, processInfo, false)\<close>
  and \<open>captureOutputWithBuffer(stderr, processInfo, true)\<close>, and the exit watcher
  \<open>monitorProcess(processInfo)\<close>.
\<close>

datatype goroutine = Capturer bool nat | Monitor nat

text \<open>
  The manager: the catalog \<open>db\<close> (table \<open>projects\<close> by id), the map \<open>processes\<close> from
  project id to a reference to a \<open>ProcessInfo\<close>, the store \<open>heap\<close> of these objects
  (the capture and monitor goroutines hold the same references), and the goroutines that
  have been started and have not ended; \<open>next_ref\<close> is the next unused reference.
\<close>

record Manager =
  db :: "nat \<Rightarrow> Project option"
  processes :: "nat \<Rightarrow> nat option"
  heap :: "nat \<Rightarrow> ProcessInfo"
  next_ref :: nat
  goroutines :: "goroutine list"

datatype error =
    ProjectNotFound
  | AlreadyRunning
  | StdoutPipeFailed string
  | StderrPipeFailed string
  | StartFailed string
  | InvalidPID

datatype outcome = Success | Failure error | Panic

text \<open>
  \<open>db.Table("projects").Where("id = ?", id).Updates(...)\<close>: the row is changed if it
  exists; the result of the call is ignored by every caller.
\<close>

definition Updates :: "nat \<Rightarrow> (Project \<Rightarrow> Project) \<Rightarrow> Manager \<Rightarrow> Manager" where
  "Updates projectID f m =
     (case db m projectID of
        None \<Rightarrow> m
      | Some p \<Rightarrow> m\<lparr>db := (db m)(projectID \<mapsto> f p)\<rparr>)"

text \<open>
  \<open>Process.Signal\<close> of Go's package \<open>os\<close>, on a process that \<open>os.FindProcess\<close> or
  \<open>cmd.Start\<close> returned; the result is whether the error it returns is \<open>nil\<close>. Its argument
  is a value of the interface \<open>os.Signal\<close>. \<open>Signal\<close> asserts that the value is a
  \<open>syscall.Signal\<close> and returns the error \<open>os: unsupported signal type\<close> when it is not,
  without a system call; otherwise it returns what \<open>kill(pid, sig)\<close> returns. The manager
  passes \<open>os.Signal(nil)\<close> in every probe: the nil interface value, here \<open>None\<close>, which is
  no \<open>syscall.Signal\<close>. The signal-0 probe is \<open>Some (syscall_Signal 0)\<close>.
\<close>

datatype os_Signal = syscall_Signal nat

definition Process_Signal :: "Host \<Rightarrow> int \<Rightarrow> os_Signal option \<Rightarrow> bool" where
  "Process_Signal h pid sig =
     (case sig of
        None \<Rightarrow> False
      | Some (syscall_Signal s) \<Rightarrow> syscall_Kill h pid s)"

definition hasChildProcesses :: "Host \<Rightarrow> int \<Rightarrow> bool" where
  "hasChildProcesses h parentPID =
     (case pgrep_P h parentPID of None \<Rightarrow> False | Some output \<Rightarrow> output \<noteq> [])"

definition listensOn :: "string \<Rightarrow> int \<Rightarrow> bool" where
  "listensOn output port =
     list_ex (\<lambda>line. Contains line ('':'' @ Itoa port) \<and> Contains line ''LISTEN'')
       (splitByte (CHR 0x0A) output)"

definition isPortInUse :: "Host \<Rightarrow> int \<Rightarrow> bool" where
  "isPortInUse h port =
     (if lsof_listen_ok h port then True
      else if lsof_ok h port then True
      else if (case netstat_an h of None \<Rightarrow> False | Some output \<Rightarrow> listensOn output port)
           then True
      else if (case ss_an h of None \<Rightarrow> False | Some output \<Rightarrow> listensOn output port)
           then True
      else False)"

definition IsServiceRunning :: "Host \<Rightarrow> Manager \<Rightarrow> nat \<Rightarrow> bool" where
  "IsServiceRunning h m projectID =
     (if (case processes m projectID of
            None \<Rightarrow> False
          | Some r \<Rightarrow> (case Process (heap m r) of
                         None \<Rightarrow> False
                       | Some pid \<Rightarrow> Process_Signal h pid None))
      then True
      else (case db m projectID of
              None \<Rightarrow> False
            | Some project \<Rightarrow>
                (if Port project > 0 \<and> isPortInUse h (Port project) then True
                 else if PID project > 0
                      then (if FindProcess_ok h (PID project)
                               \<and> Process_Signal h (PID project) None
                            then True
                            else hasChildProcesses h (PID project))
                      else False)))"

text \<open>
  Kill by PID, as StopService and ForceKillService do: find the process, kill, sleep,
  probe, and kill once more if the probe still answers.
\<close>

definition killByPID :: "Platform \<Rightarrow> nat \<Rightarrow> int \<Rightarrow> Host \<Rightarrow> Host" where
  "killByPID w pause pid h =
     (if FindProcess_ok h pid
      then (let h1 = after_Sleep w pause (after_Kill w pid h)
            in if Process_Signal h1 pid None then after_Sleep w 500 (after_Kill w pid h1)
               else h1)
      else h)"

text \<open>
  The host while StopService stops a tracked child: cancel, wait up to 10 s, kill, wait up
  to 2 s more, kill again.
\<close>

definition stopHandle :: "Platform \<Rightarrow> ProcessInfo \<Rightarrow> Host \<Rightarrow> Host" where
  "stopHandle w processInfo h =
     (let h1 = after_Cancel w (Process processInfo) h
      in if Wait_within w 10000 (Process processInfo) h1 then h1
         else (case Process processInfo of
                 None \<Rightarrow> after_Sleep w 10000 h1
               | Some pid \<Rightarrow>
                   (let h2 = after_Kill w pid (after_Sleep w 10000 h1)
                    in if Wait_within w 2000 (Process processInfo) h2 then h2
                       else after_Kill w pid (after_Sleep w 2000 h2))))"

definition StopService :: "Platform \<Rightarrow> nat \<Rightarrow> Host \<times> Manager \<Rightarrow> outcome \<times> Host \<times> Manager" where
  "StopService w projectID s =
     (case s of (h, m) \<Rightarrow>
       (case db m projectID of
          None \<Rightarrow> (Failure ProjectNotFound, h, m)
        | Some p \<Rightarrow>
            (let processRunning =
                   (PID p > 0 \<and> FindProcess_ok h (PID p) \<and> Process_Signal h (PID p) None);
                 exists = (processes m projectID \<noteq> None)
             in if \<not> processRunning \<and> \<not> exists
                then (Success, h,
                      Updates projectID
                        (\<lambda>r. r\<lparr>Status := StatusStopped, StopTime := Some (now h), PID := 0\<rparr>) m)
                else (let m1 = Updates projectID (\<lambda>r. r\<lparr>Status := StatusStopping\<rparr>) m;
                          hm = (case processes m1 projectID of
                                  Some ref \<Rightarrow>
                                    (let processInfo = (heap m1 ref)\<lparr>Cancelled := True\<rparr>
                                     in (stopHandle w processInfo h,
                                         m1\<lparr>heap := (heap m1)(ref := safeCloseChannel processInfo),
                                            processes := (processes m1)(projectID := None)\<rparr>))
                                | None \<Rightarrow>
                                    (if processRunning \<and> PID p > 0
                                     then (killByPID w 1000 (PID p) h, m1)
                                     else (h, m1)))
                      in (Success, fst hm,
                          Updates projectID
                            (\<lambda>r. r\<lparr>Status := StatusStopped, StopTime := Some (now (fst hm)),
                                    PID := 0\<rparr>) (snd hm))))))"

definition ForceKillService :: "Platform \<Rightarrow> nat \<Rightarrow> Host \<times> Manager \<Rightarrow> outcome \<times> Host \<times> Manager" where
  "ForceKillService w projectID s =
     (case s of (h, m) \<Rightarrow>
       (case db m projectID of
          None \<Rightarrow> (Failure ProjectNotFound, h, m)
        | Some p \<Rightarrow>
            (let h1 = (if PID p > 0 then killByPID w 500 (PID p) h else h);
                 hm = (case processes m projectID of
                         None \<Rightarrow> (h1, m)
                       | Some ref \<Rightarrow>
                           (let processInfo = (heap m ref)\<lparr>Cancelled := True\<rparr>
                            in (after_Cancel w (Process processInfo) h1,
                                m\<lparr>heap := (heap m)(ref := safeCloseChannel processInfo),
                                  processes := (processes m)(projectID := None)\<rparr>)))
             in (Success, fst hm,
                 Updates projectID
                   (\<lambda>r. r\<lparr>Status := StatusStopped, StopTime := Some (now (fst hm)), PID := 0,
                           LastError := ''Force killed''\<rparr>) (snd hm)))))"

text \<open>
  \<open>monitorProcess\<close>, the exit watcher of a handle: it is started by \<open>StartService\<close>, blocks
  in \<open>Wait\<close> until the child has ended, then takes the manager's lock and runs the step
  below on the state it finds. The status is \<open>stopped\<close> when \<open>Wait\<close> returned no error and
  \<open>error\<close>, with the text of the error, when it did. The goroutine then ends.
\<close>

definition monitorProcess :: "Platform \<Rightarrow> nat \<Rightarrow> Host \<times> Manager \<Rightarrow> Host \<times> Manager" where
  "monitorProcess w ref s =
     (case s of (h, m) \<Rightarrow>
        (let processInfo = heap m ref;
             err = Wait_error w (Process processInfo) h;
             status = (case err of None \<Rightarrow> StatusStopped | Some e \<Rightarrow> StatusError);
             lastError = (case err of None \<Rightarrow> [] | Some e \<Rightarrow> e);
             m1 = Updates (ProjectID processInfo)
                    (\<lambda>r. r\<lparr>Status := status, StopTime := Some (now h), PID := 0,
                            LastError := lastError\<rparr>) m
         in (h, m1\<lparr>heap := (heap m1)(ref := safeCloseChannel (heap m1 ref)),
                   processes := (processes m1)(ProjectID processInfo := None),
                   goroutines := remove1 (Monitor ref) (goroutines m1)\<rparr>)))"

text \<open>\<open>json.Marshal\<close> of a \<open>[]string\<close>: it cannot fail.\<close>

definition Marshal :: "Platform \<Rightarrow> string list \<Rightarrow> string" where
  "Marshal w logs =
     ''['' @ Join (map (\<lambda>s. [CHR 0x22] @ json_escape w s @ [CHR 0x22]) logs) '','' @ '']''"

definition saveLogsToDatabase :: "Platform \<Rightarrow> nat \<Rightarrow> string list \<Rightarrow> Manager \<Rightarrow> Manager" where
  "saveLogsToDatabase w projectID logs m =
     (if length logs = 0 then m
      else Updates projectID (\<lambda>r. r\<lparr>Logs_col := Marshal w logs\<rparr>) m)"


text \<open>
  The loop of \<open>captureOutputWithBuffer\<close> over the lines of the pipe, each with its time of
  arrival, on the manager and the record of the sends.
\<close>

fun captureLines ::
  "Platform \<Rightarrow> bool \<Rightarrow> nat \<Rightarrow> nat \<Rightarrow> (nat \<times> string) list
     \<Rightarrow> Manager \<times> emission list \<Rightarrow> Manager \<times> emission list" where
  "captureLines w isStderr ref lastSaveTime [] s = s"
| "captureLines w isStderr ref lastSaveTime ((t, line) # rest) s =
     (if stripANSI line = [] then captureLines w isStderr ref lastSaveTime rest s
      else (let c = captureLine isStderr line (heap (fst s) ref, snd s);
                m1 = (fst s)\<lparr>heap := (heap (fst s))(ref := fst c)\<rparr>
            in if t - lastSaveTime > 2000
               then captureLines w isStderr ref t rest
                      (saveLogsToDatabase w (ProjectID (heap m1 ref))
                         (getLogBuffer (heap m1 ref)) m1, snd c)
               else captureLines w isStderr ref lastSaveTime rest (m1, snd c)))"

text \<open>
  \<open>captureOutputWithBuffer\<close>, a capturer from its start (at time \<open>start\<close>) to its end:
  the loop over the lines that the scanner yields, then, when the scanner ended on an
  error, the line that reports it: appended to the ring, sent, and the ring saved. The
  goroutine then ends.
\<close>

definition captureOutputWithBuffer ::
  "Platform \<Rightarrow> bool \<Rightarrow> nat \<Rightarrow> nat \<Rightarrow> (nat \<times> string) list \<Rightarrow> string option
     \<Rightarrow> Manager \<times> emission list \<Rightarrow> Manager \<times> emission list" where
  "captureOutputWithBuffer w isStderr ref start lines scanErr s =
     (let s1 = captureLines w isStderr ref start lines s;
          s2 = (case scanErr of
                  None \<Rightarrow> s1
                | Some err \<Rightarrow>
                    (let errorMsg = ''[ERROR] Error reading output: '' @ err;
                         c = sendToLogs errorMsg
                               (addToLogBuffer errorMsg (heap (fst s1) ref), snd s1);
                         m2 = (fst s1)\<lparr>heap := (heap (fst s1))(ref := fst c)\<rparr>
                     in (saveLogsToDatabase w (ProjectID (heap m2 ref))
                           (getLogBuffer (heap m2 ref)) m2, snd c)))
      in ((fst s2)\<lparr>goroutines := remove1 (Capturer isStderr ref) (goroutines (fst s2))\<rparr>,
          snd s2))"

section \<open>The child's command and environment\<close>

datatype runtime_panic = IndexOutOfRange

text \<open>
  \<open>exec.CommandContext(ctx, name, arg...)\<close>: the arguments are the name followed by
  \<open>arg\<close>; the path is the name, or, for a name that is its own \<open>filepath.Base\<close> (it is not
  empty and has no \<open>/\<close>), the path that \<open>exec.LookPath\<close> finds for it, if it finds one. An
  error of \<open>LookPath\<close> is kept in the command and is returned by \<open>cmd.Start\<close>.
\<close>

definition exec_Command :: "Platform \<Rightarrow> string \<Rightarrow> string list \<Rightarrow> Cmd" where
  "exec_Command w name arg =
     \<lparr>Path_cmd = (if name \<noteq> [] \<and> CHR ''/'' \<notin> set name
                   then (case LookPath w name of None \<Rightarrow> name | Some lp \<Rightarrow> lp)
                   else name),
      Args_cmd = name # arg, Dir = [], Env = []\<rparr>"

definition TypeBackend :: string where "TypeBackend = ''backend''"
definition TypeFrontend :: string where "TypeFrontend = ''frontend''"

definition prepareCommand :: "Platform \<Rightarrow> Project \<Rightarrow> runtime_panic + Cmd" where
  "prepareCommand w p =
     (if Command p \<noteq> []
      then (let parts = Fields (Command p);
                cmd = (if length parts > 1
                       then (case parts of
                               [] \<Rightarrow> Inl IndexOutOfRange
                             | name # arg \<Rightarrow> Inr (exec_Command w name arg))
                       else (case parts of
                               [] \<Rightarrow> Inl IndexOutOfRange
                             | name # _ \<Rightarrow> Inr (exec_Command w name [])))
            in (case cmd of
                  Inl e \<Rightarrow> Inl e
                | Inr c \<Rightarrow>
                    (if Args p \<noteq> []
                     then Inr (c\<lparr>Args_cmd := Args_cmd c @ Fields (Args p)\<rparr>)
                     else Inr c)))
      else (if Type p = TypeBackend then Inr (exec_Command w ''go'' [''run'', ''main.go''])
            else if Type p = TypeFrontend then Inr (exec_Command w ''npm'' [''start''])
            else Inr (exec_Command w ''sh''
                        [''-c'', ''echo '' @ [CHR 0x27] @ ''No command specified'' @ [CHR 0x27]])))"

text \<open>
  A Go \<open>map[string]string\<close> is an association list with distinct keys; assignment is
  \<open>AList.update\<close>. The order in which \<open>range\<close> visits the entries is chosen by the
  runtime: \<open>range_order\<close> of the platform.
\<close>

definition SplitN2 :: "string \<Rightarrow> string \<Rightarrow> string list" where
  "SplitN2 s sep =
     (case Index s sep of None \<Rightarrow> [s] | Some i \<Rightarrow> [take i s, drop (i + length sep) s])"

definition unquote :: "string \<Rightarrow> string" where
  "unquote v =
     (if length v \<ge> 2
         \<and> ((hd v = CHR 0x22 \<and> last v = CHR 0x22) \<or> (hd v = CHR 0x27 \<and> last v = CHR 0x27))
      then take (length v - 2) (drop 1 v)
      else v)"

definition loadEnvLine :: "(string \<times> string) list \<Rightarrow> string \<Rightarrow> (string \<times> string) list" where
  "loadEnvLine envVars line0 =
     (let line = TrimSpace line0
      in if line = [] \<or> HasPrefix line ''#'' then envVars
         else (case SplitN2 line ''='' of
                 [k, v] \<Rightarrow> AList.update (TrimSpace k) (unquote (TrimSpace v)) envVars
               | _ \<Rightarrow> envVars))"

definition loadEnvFile :: "Host \<Rightarrow> string \<Rightarrow> (string \<times> string) list" where
  "loadEnvFile h envPath =
     (case ReadFile h envPath of
        None \<Rightarrow> []
      | Some content \<Rightarrow> foldl loadEnvLine [] (splitByte (CHR 0x0A) content))"

definition stringifyJSON :: "JValue \<Rightarrow> string" where
  "stringifyJSON v =
     (case v of
        JString s \<Rightarrow> s
      | JNumber s \<Rightarrow> s
      | JBool b \<Rightarrow> (if b then ''true'' else ''false'')
      | JNull \<Rightarrow> []
      | JOther s \<Rightarrow> s)"

definition parseEnvVarsJSON :: "Platform \<Rightarrow> string \<Rightarrow> (string \<times> string) list" where
  "parseEnvVarsJSON w envVarsJSON =
     (case json_Unmarshal w envVarsJSON of
        None \<Rightarrow> []
      | Some jsonMap \<Rightarrow>
          foldl (\<lambda>envVars kv. AList.update (fst kv) (stringifyJSON (snd kv)) envVars) [] jsonMap)"

definition removeEnvVar :: "string list \<Rightarrow> string \<Rightarrow> string list" where
  "removeEnvVar env key = filter (\<lambda>e. \<not> HasPrefix e (key @ ''='')) env"

fun mergeEnvVars :: "string list \<Rightarrow> (string \<times> string) list \<Rightarrow> string list" where
  "mergeEnvVars env [] = env"
| "mergeEnvVars env ((k, v) # kvs) = mergeEnvVars (removeEnvVar env k @ [k @ ''='' @ v]) kvs"

definition envFilePath :: "Platform \<Rightarrow> Project \<Rightarrow> string" where
  "envFilePath w p =
     (if EnvFile p = [] \<and> Path p \<noteq> [] then filepath_Join w (Path p) ''.env'' else EnvFile p)"

definition prepareEnvironment :: "Platform \<Rightarrow> Host \<Rightarrow> Project \<Rightarrow> string list" where
  "prepareEnvironment w h p =
     (let env0 = Environ h;
          env1 = (if envFilePath w p \<noteq> []
                  then mergeEnvVars env0 (range_order w (loadEnvFile h (envFilePath w p)))
                  else env0);
          env2 = (if EnvVars p \<noteq> []
                  then mergeEnvVars env1 (range_order w (parseEnvVarsJSON w (EnvVars p)))
                  else env1);
          portSet = list_ex (\<lambda>e. HasPrefix e ''PORT='') env2;
          env3 = (if \<not> portSet \<and> Port p > 0 then env2 @ [''PORT='' @ Itoa (Port p)] else env2);
          envSet = list_ex (\<lambda>e. HasPrefix e ''ENVIRONMENT='') env3
      in if \<not> envSet \<and> Environment p \<noteq> []
         then env3 @ [''ENVIRONMENT='' @ Environment p]
         else env3)"

text \<open>
  For stating properties of the assembled environment: the entries of a list that are
  named \<open>k\<close> (those that start with \<open>k=\<close>), the variables that \<open>prepareEnvironment\<close> reads
  from the env file, and those it reads from the inline JSON.
\<close>

definition entriesOf :: "string \<Rightarrow> string list \<Rightarrow> string list" where
  "entriesOf k env = filter (\<lambda>e. HasPrefix e (k @ ''='')) env"

definition fileVars :: "Platform \<Rightarrow> Host \<Rightarrow> Project \<Rightarrow> (string \<times> string) list" where
  "fileVars w h p = (if envFilePath w p \<noteq> [] then loadEnvFile h (envFilePath w p) else [])"

definition jsonVars :: "Platform \<Rightarrow> Project \<Rightarrow> (string \<times> string) list" where
  "jsonVars w p = (if EnvVars p \<noteq> [] then parseEnvVarsJSON w (EnvVars p) else [])"

definition newProcessInfo :: "nat \<Rightarrow> nat \<Rightarrow> ProcessInfo" where
  "newProcessInfo projectID t =
     \<lparr>ProjectID = projectID, Process = None, Cancelled = False, StartTime = t,
      Logs = \<lparr>queue = [], capacity = 1000, chan_closed = False\<rparr>,
      LogBuffer = [], closed = False\<rparr>"

definition abandoned :: "ProcessInfo \<Rightarrow> ProcessInfo" where
  "abandoned processInfo =
     processInfo\<lparr>Cancelled := True, Logs := (Logs processInfo)\<lparr>chan_closed := True\<rparr>\<rparr>"

text \<open>
  \<open>StartService\<close>. The handle is entered in the map before \<open>cmd.Start\<close> and deleted again
  when the start fails or the PID is not positive; here it is entered on success only. A
  failure of \<open>StdoutPipe\<close> or \<open>StderrPipe\<close> returns before a handle is made and leaves the
  status at \<open>starting\<close>. On success the two capturers and the exit watcher are started
  for the handle, before the row is updated.
\<close>

definition StartService :: "Platform \<Rightarrow> nat \<Rightarrow> Host \<times> Manager \<Rightarrow> outcome \<times> Host \<times> Manager" where
  "StartService w projectID s =
     (case s of (h, m) \<Rightarrow>
       (if processes m projectID \<noteq> None then (Failure AlreadyRunning, h, m)
        else (case db m projectID of
                None \<Rightarrow> (Failure ProjectNotFound, h, m)
              | Some p \<Rightarrow>
                  (let m1 = Updates projectID (\<lambda>r. r\<lparr>Status := StatusStarting\<rparr>) m
                   in (case prepareCommand w p of
                         Inl _ \<Rightarrow> (Panic, h, m1)
                       | Inr cmd0 \<Rightarrow>
                           (let cmd = cmd0\<lparr>Dir := (if WorkingDir p \<noteq> [] then WorkingDir p
                                                    else Path p),
                                            Env := prepareEnvironment w h p\<rparr>
                            in (case StdoutPipe_error w cmd h of
                                  Some err \<Rightarrow> (Failure (StdoutPipeFailed err), h, m1)
                                | None \<Rightarrow>
                            (case StderrPipe_error w cmd h of
                                  Some err \<Rightarrow> (Failure (StderrPipeFailed err), h, m1)
                                | None \<Rightarrow>
                            (let ref = next_ref m1;
                                 processInfo = newProcessInfo projectID (now h);
                                 started = cmd_Start w cmd h;
                                 h1 = snd started;
                                 m2 = m1\<lparr>next_ref := Suc ref\<rparr>
                             in (case fst started of
                                  Inl err \<Rightarrow>
                                    (Failure (StartFailed err), h1,
                                     Updates projectID
                                       (\<lambda>r. r\<lparr>Status := StatusError, LastError := err\<rparr>)
                                       (m2\<lparr>heap := (heap m2)(ref := abandoned processInfo)\<rparr>))
                                | Inr pid \<Rightarrow>
                                    (if pid \<le> 0
                                     then (Failure InvalidPID, h1,
                                           Updates projectID
                                             (\<lambda>r. r\<lparr>Status := StatusError,
                                                     LastError := ''Process started but PID is invalid.'',
                                                     PID := 0\<rparr>)
                                             (m2\<lparr>heap := (heap m2)
                                                 (ref := abandoned (processInfo\<lparr>Process := Some pid\<rparr>))\<rparr>))
                                     else (Success, h1,
                                           Updates projectID
                                             (\<lambda>r. r\<lparr>Status := StatusRunning, PID := pid,
                                                     StartTime_col := Some (now h1),
                                                     LastError := []\<rparr>)
                                             (m2\<lparr>heap := (heap m2)
                                                    (ref := processInfo\<lparr>Process := Some pid\<rparr>),
                                                 processes := (processes m2)(projectID \<mapsto> ref),
                                                 goroutines := goroutines m2
                                                   @ [Capturer False ref, Capturer True ref,
                                                      Monitor ref]\<rparr>)))))))))))))"

section \<open>Example states\<close>

text \<open>
  A catalog with a stopped project (id 5, no PID, no port), a project recorded as running
  (id 7, port 8080) whose handle is tracked but whose process is gone, and a project
  without a port (id 9) that \<open>StartService\<close> has started: its handle is tracked, with the
  goroutines of a started handle, and its child, PID 4242, is running and has no children.
  On the host only PID 4242 answers signal 0, nothing listens, and \<open>pgrep -P 0\<close> lists the
  children of PID 0. On the platform kills and cancellations change nothing that the
  manager observes, and \<open>Wait\<close> returns the error of a child that a signal killed. The
  inline JSON of project 7 is \<open>{"A":3}\<close>.
\<close>

definition exampleJSON :: string where
  "exampleJSON = ''{'' @ [CHR 0x22] @ ''A'' @ [CHR 0x22] @ '':3}''"

definition stoppedProject :: Project where
  "stoppedProject =
     \<lparr>Name = ''api'', Type = ''backend'', Path = ''/srv/api'', Command = ''go run main.go'',
      Args = [], WorkingDir = [], Port = 0, Environment = ''development'', EnvFile = [],
      EnvVars = [], Status = ''stopped'', PID = 0, StartTime_col = None, StopTime = None,
      LastError = [], Logs_col = []\<rparr>"

definition webProject :: Project where
  "webProject =
     \<lparr>Name = ''web'', Type = ''frontend'', Path = ''/srv/web'', Command = ''npm run dev'',
      Args = [], WorkingDir = [], Port = 8080, Environment = ''development'', EnvFile = [],
      EnvVars = exampleJSON, Status = ''running'', PID = 999999, StartTime_col = Some 10,
      StopTime = None, LastError = [], Logs_col = []\<rparr>"

definition workerProject :: Project where
  "workerProject =
     \<lparr>Name = ''worker'', Type = ''backend'', Path = ''/srv/worker'', Command = ''sleep 1000'',
      Args = [], WorkingDir = [], Port = 0, Environment = ''development'', EnvFile = [],
      EnvVars = [], Status = ''running'', PID = 4242, StartTime_col = Some 20,
      StopTime = None, LastError = [], Logs_col = []\<rparr>"

definition exampleHost :: Host where
  "exampleHost =
     \<lparr>now = 5000,
      FindProcess_ok = (\<lambda>pid. True),
      syscall_Kill = (\<lambda>pid sig. pid = 4242),
      pgrep_P = (\<lambda>pid. if pid = 0 then Some ''1\<newline>2\<newline>'' else None),
      lsof_listen_ok = (\<lambda>port. False),
      lsof_ok = (\<lambda>port. False),
      netstat_an = None,
      ss_an = None,
      Environ = [''A=1'', ''B=1'', ''C=1''],
      ReadFile = (\<lambda>path. if path = ''/srv/web/.env'' then Some ''A=2\<newline>B=2\<newline>'' else None)\<rparr>"

definition examplePlatform :: Platform where
  "examplePlatform =
     \<lparr>after_Kill = (\<lambda>pid h. h),
      after_Sleep = (\<lambda>d h. h\<lparr>now := now h + d\<rparr>),
      after_Cancel = (\<lambda>pid h. h),
      Wait_within = (\<lambda>d pid h. True),
      Wait_error = (\<lambda>pid h. Some ''signal: killed''),
      LookPath = (\<lambda>name. Some (''/usr/bin/'' @ name)),
      StdoutPipe_error = (\<lambda>cmd h. None),
      StderrPipe_error = (\<lambda>cmd h. None),
      cmd_Start = (\<lambda>cmd h. (Inr 4242, h)),
      range_order = rev,
      filepath_Join = (\<lambda>dir name. dir @ ''/'' @ name),
      json_Unmarshal = (\<lambda>s. if s = exampleJSON then Some [(''A'', JNumber ''3'')] else None),
      json_escape = (\<lambda>s. s)\<rparr>"

definition exampleManager :: Manager where
  "exampleManager =
     \<lparr>db = (\<lambda>i. if i = 5 then Some stoppedProject
                 else if i = 7 then Some webProject
                 else if i = 9 then Some workerProject else None),
      processes = (\<lambda>i. if i = 7 then Some 0 else if i = 9 then Some 1 else None),
      heap = (\<lambda>r. if r = 1 then (newProcessInfo 9 20)\<lparr>Process := Some 4242\<rparr>
                   else (newProcessInfo 7 10)\<lparr>Process := Some 999999\<rparr>),
      next_ref = 2,
      goroutines = [Capturer False 0, Capturer True 0, Monitor 0,
                    Capturer False 1, Capturer True 1, Monitor 1]\<rparr>"

section \<open>Properties of port extraction\<close>

lemma cut_paren:
  "(case Index s ''('' of Some i \<Rightarrow> take i s | None \<Rightarrow> s) = takeWhile (\<lambda>c. c \<noteq> CHR ''('') s"
  by (induction s) (auto simp: HasPrefix_def split: option.splits)

lemma extractPortFromAddr_range: "0 \<le> extractPortFromAddr addr \<and> extractPortFromAddr addr \<le> 65535"
  by (auto simp: extractPortFromAddr_def Let_def split: option.splits)

lemma extractPortFromLsofName_range: "0 \<le> extractPortFromLsofName name \<and> extractPortFromLsofName name \<le> 65535"
  by (auto simp: extractPortFromLsofName_def Let_def split: option.splits)

lemma extractPortFromAddr_iff: "p \<noteq> 0 \<Longrightarrow> (extractPortFromAddr addr = p) = (\<exists>i. LastIndex addr '':'' = Some i \<and>
      Atoi (drop (i + 1) addr) = Some p \<and> 1 \<le> p \<and> p \<le> 65535)"
  by (auto simp: extractPortFromAddr_def Let_def split: option.splits)

lemma extractPortFromLsofName_iff: "p \<noteq> 0 \<Longrightarrow> (extractPortFromLsofName name = p) = (\<exists>i. LastIndex (Trim name ''[]'') '':'' = Some i \<and>
      Atoi (TrimSpace (takeWhile (\<lambda>c. c \<noteq> CHR ''('') (drop (i + 1) (Trim name ''[]'')))) = Some p \<and> 1 \<le> p \<and> p \<le> 65535)"
  unfolding extractPortFromLsofName_def Let_def cut_paren
  by (auto split: option.splits)

lemma LastIndex_None: "(LastIndex s [c] = None) = (c \<notin> set s)"
  by (induction s) (auto simp: HasPrefix_def split: option.splits)

lemma LastIndex_append: "c \<notin> set ds \<Longrightarrow> LastIndex (h @ c # ds) [c] = Some (length h)"
  by (induction h) (auto simp: HasPrefix_def LastIndex_None split: option.splits)

lemma isDigit_int: "isDigit c \<Longrightarrow> 48 \<le> (of_char c :: int)"
  by (simp add: isDigit_def)

lemma digitsValue_foldl_nonneg:
  "0 \<le> n \<Longrightarrow> list_all isDigit ds \<Longrightarrow> 0 \<le> foldl (\<lambda>n c. 10 * n + ((of_char c :: int) - 48)) n ds"
proof (induction ds arbitrary: n)
  case Nil
  then show ?case by simp
next
  case (Cons a ds)
  then have "48 \<le> (of_char a :: int)" using isDigit_int by simp
  with Cons.prems have "0 \<le> 10 * n + (of_char a - 48)" by simp
  with Cons show ?case by simp
qed

lemma isDigit_not_sign:
  "isDigit c \<Longrightarrow> c \<noteq> CHR ''+'' \<and> c \<noteq> CHR ''-'' \<and> c \<noteq> CHR '':'' \<and> c \<noteq> CHR ''(''
     \<and> c \<noteq> CHR ''['' \<and> c \<noteq> CHR '']''"
  by (auto simp: isDigit_def)

lemma Atoi_digits:
  assumes "ds \<noteq> []" "list_all isDigit ds" "digitsValue ds < 2 ^ 63"
  shows "Atoi ds = Some (digitsValue ds)"
proof -
  obtain d r where ds: "ds = d # r" using assms(1) by (cases ds) auto
  with assms(2) have "isDigit d" by simp
  then have d: "d \<noteq> CHR ''+''" "d \<noteq> CHR ''-''" using isDigit_not_sign by auto
  have "0 \<le> digitsValue ds"
    unfolding digitsValue_def using digitsValue_foldl_nonneg [of 0 ds] assms(2) by simp
  with assms d ds show ?thesis by (simp add: Atoi_def Let_def)
qed

lemma extractPortFromAddr_accept:
  assumes "ds \<noteq> []" "list_all isDigit ds" "1 \<le> digitsValue ds" "digitsValue ds \<le> 65535"
  shows "extractPortFromAddr (h @ '':'' @ ds) = digitsValue ds"
proof -
  have "CHR '':'' \<notin> set ds" using assms(2) isDigit_not_sign by (auto simp: list_all_iff)
  then have "LastIndex (h @ '':'' @ ds) '':'' = Some (length h)"
    using LastIndex_append [of "CHR '':''" ds h] by simp
  moreover have "Atoi ds = Some (digitsValue ds)"
    using Atoi_digits assms by simp
  ultimately show ?thesis using assms by (simp add: extractPortFromAddr_def)
qed

lemma spaceWidth_other:
  "\<forall>r\<in>set runes. r \<noteq> [] \<and> hd r \<noteq> d \<Longrightarrow> spaceWidth runes (d # s) = 0"
proof -
  assume a: "\<forall>r\<in>set runes. r \<noteq> [] \<and> hd r \<noteq> d"
  have "\<not> HasPrefix (d # s) r" if "r \<in> set runes" for r
    using a that by (cases r) (auto simp: HasPrefix_def)
  then have "find (HasPrefix (d # s)) runes = None"
    by (simp add: find_None_iff)
  then show ?thesis by (simp add: spaceWidth_def)
qed

lemma isDigit_not_space_first:
  "isDigit d \<Longrightarrow> d \<notin> set (map hd spaceRunes) \<and> d \<notin> set (map hd (map rev spaceRunes))"
  by (auto simp: spaceRunes_def isDigit_def)

lemma spaceRunes_nonempty: "[] \<notin> set spaceRunes"
  by (simp add: spaceRunes_def)

lemma spaceWidth_digit: "isDigit d \<Longrightarrow> spaceWidth spaceRunes (d # s) = 0"
proof (rule spaceWidth_other, rule ballI)
  fix r assume "isDigit d" "r \<in> set spaceRunes"
  then show "r \<noteq> [] \<and> hd r \<noteq> d"
    using isDigit_not_space_first [of d] spaceRunes_nonempty by auto
qed

lemma spaceWidth_rev_digit: "isDigit d \<Longrightarrow> spaceWidth (map rev spaceRunes) (d # s) = 0"
proof (rule spaceWidth_other, rule ballI)
  fix r assume "isDigit d" "r \<in> set (map rev spaceRunes)"
  then show "r \<noteq> [] \<and> hd r \<noteq> d"
    using isDigit_not_space_first [of d] spaceRunes_nonempty by auto
qed

lemma spaceWidth_rev_space: "spaceWidth (map rev spaceRunes) (CHR '' '' # s) = 1"
  by (simp add: spaceWidth_def spaceRunes_def HasPrefix_def)

lemma trimLeftRunes_id: "spaceWidth runes s = 0 \<Longrightarrow> trimLeftRunes runes s = s"
  by (subst trimLeftRunes.simps) simp

lemma TrimSpace_digits:
  assumes "ds \<noteq> []" "list_all isDigit ds"
  shows "TrimSpace ds = ds" and "TrimSpace (ds @ '' '') = ds"
proof -
  obtain d r where ds: "ds = d # r" using assms(1) by (cases ds) auto
  with assms(2) have d: "isDigit d" by simp
  obtain e q where rds: "rev ds = e # q" using assms(1) by (cases "rev ds") auto
  then have "e \<in> set ds" by (metis list.set_intros(1) set_rev)
  with assms(2) have e: "isDigit e" by (simp add: list_all_iff)
  have l: "trimLeftRunes spaceRunes ds = ds" 
    using d ds trimLeftRunes_id spaceWidth_digit by simp
  have l2: "trimLeftRunes spaceRunes (ds @ '' '') = ds @ '' ''" 
    using d ds trimLeftRunes_id spaceWidth_digit by simp
  have r: "trimLeftRunes (map rev spaceRunes) (rev ds) = rev ds"
    using e rds trimLeftRunes_id spaceWidth_rev_digit by simp
  show "TrimSpace ds = ds" by (simp add: TrimSpace_def l r)
  have "trimLeftRunes (map rev spaceRunes) (CHR '' '' # rev ds) = rev ds"
    using trimLeftRunes.simps [of "map rev spaceRunes" "CHR '' '' # rev ds"] r
    by (simp add: spaceWidth_rev_space)
  then show "TrimSpace (ds @ '' '') = ds" by (simp add: TrimSpace_def l2)
qed

lemma dropWhile_rev_last:
  "xs \<noteq> [] \<Longrightarrow> \<not> P (last xs) \<Longrightarrow> dropWhile P (rev xs) = rev xs"
  by (cases xs rule: rev_cases) auto

lemma Trim_brackets:
  assumes "t \<noteq> []" "last t \<noteq> CHR ''[''" "last t \<noteq> CHR '']''"
  shows "Trim (h @ '':'' @ t) ''[]'' = dropWhile (\<lambda>c. c \<in> set ''[]'') h @ '':'' @ t"
proof -
  define B where "B = (\<lambda>c. c \<in> set ''[]'')"
  define X where "X = dropWhile B h @ '':'' @ t"
  have nb: "\<not> B (CHR '':'')" by (simp add: B_def)
  have a: "dropWhile B (h @ '':'' @ t) = X"
    unfolding X_def using nb by (simp add: dropWhile_append)
  have "X \<noteq> []" "last X = last t" using assms(1) by (simp_all add: X_def)
  moreover have "\<not> B (last t)" using assms by (simp add: B_def)
  ultimately have b: "dropWhile B (rev X) = rev X"
    using dropWhile_rev_last [of X B] by simp
  have "rev (dropWhile B (rev (dropWhile B (h @ '':'' @ t)))) = X"
    by (simp only: a b rev_rev_ident)
  then show ?thesis unfolding Trim_def B_def X_def .
qed

lemma extractPortFromLsofName_accept:
  assumes "ds \<noteq> []" "list_all isDigit ds" "1 \<le> digitsValue ds" "digitsValue ds \<le> 65535"
      and "ann = [] \<or> ann = ''(LISTEN)'' \<or> ann = '' (LISTEN)''"
  shows "extractPortFromLsofName (h @ '':'' @ ds @ ann) = digitsValue ds"
proof -
  define h' where "h' = dropWhile (\<lambda>c. c \<in> set ''[]'') h"
  define P where "P = (\<lambda>c. c \<noteq> CHR ''('')"
  have "last ds \<in> set ds" using assms(1) by simp
  with assms(2) have "isDigit (last ds)" by (simp add: list_all_iff)
  then have ld: "last ds \<noteq> CHR ''[''" "last ds \<noteq> CHR '']''"
    using isDigit_not_sign by blast+
  have la: "last (ds @ ann) \<noteq> CHR ''[''" "last (ds @ ann) \<noteq> CHR '']''"
    using assms(5) ld by auto
  have T: "Trim (h @ '':'' @ ds @ ann) ''[]'' = h' @ '':'' @ ds @ ann"
    unfolding h'_def using Trim_brackets [of "ds @ ann" h] assms(1) la by simp
  have "CHR '':'' \<notin> set ds"
    using assms(2) isDigit_not_sign by (auto simp: list_all_iff)
  moreover have "CHR '':'' \<notin> set ann" using assms(5) by auto
  ultimately have "CHR '':'' \<notin> set (ds @ ann)" by simp
  then have L: "LastIndex (h' @ '':'' @ ds @ ann) '':'' = Some (length h')"
    using LastIndex_append [of "CHR '':''" "ds @ ann" h'] by simp
  have D: "drop (length h' + 1) (h' @ '':'' @ ds @ ann) = ds @ ann" by simp
  have "\<forall>c\<in>set ds. P c"
    unfolding P_def using assms(2) isDigit_not_sign by (auto simp: list_all_iff)
  then have tw: "takeWhile P (ds @ ann) = ds @ takeWhile P ann"
    by (simp add: takeWhile_append2)
  have "takeWhile P ann = [] \<or> takeWhile P ann = '' ''"
    using assms(5) by (auto simp: P_def)
  then have TS: "TrimSpace (takeWhile P (ds @ ann)) = ds"
    unfolding tw using TrimSpace_digits [OF assms(1,2)] by auto
  have A: "Atoi ds = Some (digitsValue ds)"
    using Atoi_digits assms by simp
  have "extractPortFromLsofName (h @ '':'' @ ds @ ann) =
          (if digitsValue ds \<le> 0 \<or> digitsValue ds > 65535 then 0 else digitsValue ds)"
    by (simp only: extractPortFromLsofName_def Let_def cut_paren T L D TS A
          option.case P_def [symmetric])
  then show ?thesis using assms(3,4) by simp
qed

lemma extractPortFromAddr_annotated: "extractPortFromAddr ''0.0.0.0:80(LISTEN)'' = 0"
  by code_simp

lemma spec_extractPort_annotated: "spec_extractPort ''0.0.0.0:80(LISTEN)'' = 80"
  by code_simp

lemma extractPortFromLsofName_bracket: "extractPortFromLsofName ''127.0.0.1:80]'' = 80"
  by code_simp

lemma spec_extractPort_bracket: "spec_extractPort ''127.0.0.1:80]'' = 0"
  by code_simp

text \<open>
  Claim C8, as stated, fails: \<open>extractPortFromAddr\<close> does not strip an annotation, so it
  rejects \<open>0.0.0.0:80(LISTEN)\<close>, whose port substring after stripping is \<open>80\<close>; and
  \<open>extractPortFromLsofName\<close> trims brackets from both ends of the name before it looks
  for the colon, so it returns 80 for \<open>127.0.0.1:80]\<close>, whose substring after the last
  colon, \<open>80]\<close>, is not an integer.
\<close>

theorem extractPort_spec_counterexample:
  "extractPortFromAddr ''0.0.0.0:80(LISTEN)'' = 0
   \<and> spec_extractPort ''0.0.0.0:80(LISTEN)'' = 80
   \<and> extractPortFromLsofName ''127.0.0.1:80]'' = 80
   \<and> spec_extractPort ''127.0.0.1:80]'' = 0"
  by (intro conjI extractPortFromAddr_annotated spec_extractPort_annotated
        extractPortFromLsofName_bracket spec_extractPort_bracket)

text \<open>
  Claim C8, amended. \<open>extractPortFromLsofName\<close> trims \<open>[\<close> and \<open>]\<close> from both ends of
  the name, takes the substring after the last \<open>:\<close>, cuts it at the first \<open>(\<close> and trims
  white space; \<open>extractPortFromAddr\<close> takes the substring after the last \<open>:\<close> as it is.
  Each returns a non-zero \<open>p\<close> exactly when \<open>Atoi\<close> reads its substring as \<open>p\<close> with
  \<open>1 \<le> p \<le> 65535\<close>, and 0 otherwise (also when there is no \<open>:\<close>); neither ever
  returns a value outside \<open>0..65535\<close>. For an address \<open>h:P\<close> with \<open>P\<close> a decimal port
  in \<open>1..65535\<close>, both return \<open>P\<close>, and so does \<open>extractPortFromLsofName\<close> when
  \<open> (LISTEN)\<close> follows.
\<close>

theorem extractPort_sound:
  "0 \<le> extractPortFromLsofName name \<and> extractPortFromLsofName name \<le> 65535
   \<and> 0 \<le> extractPortFromAddr addr \<and> extractPortFromAddr addr \<le> 65535
   \<and> (p \<noteq> 0 \<longrightarrow>
        (extractPortFromAddr addr = p) =
        (\<exists>i. LastIndex addr '':'' = Some i \<and> Atoi (drop (i + 1) addr) = Some p
             \<and> 1 \<le> p \<and> p \<le> 65535))
   \<and> (p \<noteq> 0 \<longrightarrow>
        (extractPortFromLsofName name = p) =
        (\<exists>i. LastIndex (Trim name ''[]'') '':'' = Some i
             \<and> Atoi (TrimSpace (takeWhile (\<lambda>c. c \<noteq> CHR ''('')
                                  (drop (i + 1) (Trim name ''[]'')))) = Some p
             \<and> 1 \<le> p \<and> p \<le> 65535))
   \<and> (ds \<noteq> [] \<and> list_all isDigit ds \<and> 1 \<le> digitsValue ds \<and> digitsValue ds \<le> 65535 \<longrightarrow>
        extractPortFromAddr (h @ '':'' @ ds) = digitsValue ds
        \<and> extractPortFromLsofName (h @ '':'' @ ds) = digitsValue ds
        \<and> extractPortFromLsofName (h @ '':'' @ ds @ '' (LISTEN)'') = digitsValue ds)"
proof -
  have a: "p \<noteq> 0 \<longrightarrow>
        (extractPortFromAddr addr = p) =
        (\<exists>i. LastIndex addr '':'' = Some i \<and> Atoi (drop (i + 1) addr) = Some p
             \<and> 1 \<le> p \<and> p \<le> 65535)"
    using extractPortFromAddr_iff [of p addr] by (rule impI)
  have b: "p \<noteq> 0 \<longrightarrow>
        (extractPortFromLsofName name = p) =
        (\<exists>i. LastIndex (Trim name ''[]'') '':'' = Some i
             \<and> Atoi (TrimSpace (takeWhile (\<lambda>c. c \<noteq> CHR ''('')
                                  (drop (i + 1) (Trim name ''[]'')))) = Some p
             \<and> 1 \<le> p \<and> p \<le> 65535)"
    using extractPortFromLsofName_iff [of p name] by (rule impI)
  have c: "ds \<noteq> [] \<and> list_all isDigit ds \<and> 1 \<le> digitsValue ds \<and> digitsValue ds \<le> 65535 \<longrightarrow>
        extractPortFromAddr (h @ '':'' @ ds) = digitsValue ds
        \<and> extractPortFromLsofName (h @ '':'' @ ds) = digitsValue ds
        \<and> extractPortFromLsofName (h @ '':'' @ ds @ '' (LISTEN)'') = digitsValue ds"
  proof (intro impI conjI)
    assume d: "ds \<noteq> [] \<and> list_all isDigit ds \<and> 1 \<le> digitsValue ds \<and> digitsValue ds \<le> 65535"
    show "extractPortFromAddr (h @ '':'' @ ds) = digitsValue ds"
      using d by (intro extractPortFromAddr_accept) simp_all
    show "extractPortFromLsofName (h @ '':'' @ ds) = digitsValue ds"
      using d extractPortFromLsofName_accept [of ds "[]" h] by simp
    show "extractPortFromLsofName (h @ '':'' @ ds @ '' (LISTEN)'') = digitsValue ds"
      using d by (intro extractPortFromLsofName_accept) simp_all
  qed
  from extractPortFromLsofName_range [of name] extractPortFromAddr_range [of addr] a b c
  show ?thesis by (intro conjI) (erule conjE, assumption)+
qed

theorem extractPort_sound_witness:
  "extractPortFromAddr ''[::1]:5173'' = 5173
   \<and> extractPortFromLsofName ''[::1]:5173 (LISTEN)'' = 5173
   \<and> extractPortFromLsofName ''*:70000'' \<le> 65535"
proof -
  have d: "''5173'' \<noteq> [] \<and> list_all isDigit ''5173''
           \<and> 1 \<le> digitsValue ''5173'' \<and> digitsValue ''5173'' \<le> 65535"
    by (simp add: isDigit_def digitsValue_def)
  have v: "digitsValue ''5173'' = 5173"
    by (simp add: digitsValue_def)
  have "extractPortFromAddr (''[::1]'' @ '':'' @ ''5173'') = digitsValue ''5173''
        \<and> extractPortFromLsofName (''[::1]'' @ '':'' @ ''5173'' @ '' (LISTEN)'')
            = digitsValue ''5173''
        \<and> extractPortFromLsofName ''*:70000'' \<le> 65535"
    using extractPort_sound [of "''*:70000''" "''x''" 1 "''5173''" "''[::1]''"] d
    by blast
  then show ?thesis unfolding v by simp
qed

section \<open>Properties of the log ring\<close>

lemma LogBuffer_addToLogBuffer:
  "LogBuffer (addToLogBuffer l p) =
     drop (length (LogBuffer p @ [l]) - maxBufferSize) (LogBuffer p @ [l])"
  by (simp add: addToLogBuffer_def Let_def)

lemma drop_last_append:
  "drop (length (drop (length b - n) b @ ls) - n) (drop (length b - n) b @ ls)
     = drop (length (b @ ls) - n) (b @ ls)"
proof (cases "length b \<le> n")
  case True
  then show ?thesis by simp
next
  case False
  then show ?thesis by (simp add: add.commute)
qed

lemma LogBuffer_addAllToLogBuffer:
  "LogBuffer (addAllToLogBuffer ls p) =
     (if ls = [] then LogBuffer p
      else drop (length (LogBuffer p @ ls) - maxBufferSize) (LogBuffer p @ ls))"
proof (induction ls arbitrary: p)
  case Nil
  then show ?case by simp
next
  case (Cons l ls)
  show ?case
  proof (cases "ls = []")
    case True
    then show ?thesis by (simp add: LogBuffer_addToLogBuffer)
  next
    case False
    have "LogBuffer (addAllToLogBuffer (l # ls) p) =
            drop (length (LogBuffer (addToLogBuffer l p) @ ls) - maxBufferSize)
                 (LogBuffer (addToLogBuffer l p) @ ls)"
      using Cons.IH [of "addToLogBuffer l p"] False by simp
    also have "\<dots> = drop (length ((LogBuffer p @ [l]) @ ls) - maxBufferSize)
                        ((LogBuffer p @ [l]) @ ls)"
      unfolding LogBuffer_addToLogBuffer by (rule drop_last_append)
    finally show ?thesis by simp
  qed
qed

text \<open>
  Claim C6. From a ring of at most 1000 lines (the ring of a new handle is empty), after
  any sequence \<open>ls\<close> of appended lines the ring holds at most 1000 lines and is exactly
  the last 1000 (or all, if fewer) of the lines it held followed by \<open>ls\<close>, in their
  order of arrival; once 1000 lines have been appended it is exactly the last 1000
  lines of \<open>ls\<close>. \<open>addToLogBuffer\<close> is a total function: it returns for every line and
  every handle.
\<close>

theorem log_ring_bounded:
  assumes "length (LogBuffer p) \<le> 1000"
  shows "length (LogBuffer (addAllToLogBuffer ls p)) \<le> 1000
       \<and> LogBuffer (addAllToLogBuffer ls p)
           = drop (length (LogBuffer p @ ls) - 1000) (LogBuffer p @ ls)
       \<and> (1000 \<le> length ls \<longrightarrow>
            LogBuffer (addAllToLogBuffer ls p) = drop (length ls - 1000) ls
            \<and> length (LogBuffer (addAllToLogBuffer ls p)) = 1000)"
  using assms by (auto simp: LogBuffer_addAllToLogBuffer maxBufferSize_def)

theorem log_ring_bounded_witness:
  "length (LogBuffer (addAllToLogBuffer (replicate 1001 ''x'') (newProcessInfo 1 0))) = 1000
   \<and> LogBuffer (addAllToLogBuffer [''a'', ''b''] (newProcessInfo 1 0)) = [''a'', ''b'']"
  using log_ring_bounded [of "newProcessInfo 1 0" "replicate 1001 ''x''"]
    log_ring_bounded [of "newProcessInfo 1 0" "[''a'', ''b'']"]
  by (simp add: newProcessInfo_def)

section \<open>Properties of ANSI stripping and of the capture of a line\<close>




lemma set_trimLeftRunes: "set (trimLeftRunes runes s) \<subseteq> set s"
proof (induction runes s rule: trimLeftRunes.induct)
  case (1 runes s)
  show ?case
  proof (cases "spaceWidth runes s = 0")
    case True
    then show ?thesis by (subst trimLeftRunes.simps) simp
  next
    case False
    have "set (drop (spaceWidth runes s) s) \<subseteq> set s" by (rule set_drop_subset)
    with False 1 show ?thesis by (subst trimLeftRunes.simps) auto
  qed
qed

lemma set_TrimSpace: "set (TrimSpace s) \<subseteq> set s"
proof -
  have "set (TrimSpace s) \<subseteq> set (rev (trimLeftRunes spaceRunes s))"
    unfolding TrimSpace_def using set_trimLeftRunes [of "map rev spaceRunes" "rev (trimLeftRunes spaceRunes s)"]
    by simp
  then show ?thesis using set_trimLeftRunes [of spaceRunes s] by auto
qed





lemma matchResidue_first: "c \<noteq> CHR ''['' \<Longrightarrow> matchResidue (c # t) = None"
  by (simp add: matchResidue_def HasPrefix_def)












lemma addToLogBuffer_last:
  "LogBuffer (addToLogBuffer l p) \<noteq> [] \<and> last (LogBuffer (addToLogBuffer l p)) = l"
proof -
  have b: "LogBuffer (addToLogBuffer l p)
             = drop (length (LogBuffer p @ [l]) - maxBufferSize) (LogBuffer p @ [l])"
    by (rule LogBuffer_addToLogBuffer)
  have "length (LogBuffer p @ [l]) - maxBufferSize < length (LogBuffer p @ [l])"
    by (simp add: maxBufferSize_def)
  then show ?thesis
    unfolding b by (simp only: last_drop last_snoc drop_eq_Nil not_le simp_thms)
qed

lemma addToLogBuffer_frame:
  "Logs (addToLogBuffer l p) = Logs p \<and> ProjectID (addToLogBuffer l p) = ProjectID p"
  by (simp add: addToLogBuffer_def Let_def)

text \<open>
  The statement pair \<open>addToLogBuffer(l); safeSendLog(Logs, l)\<close>, which the capturer runs at
  both places where it sends: the ring afterwards is the ring that \<open>addToLogBuffer\<close> left;
  either the channel took the line, and the send is recorded with that ring, or the
  channel and the record are unchanged.
\<close>

lemma append_then_send:
  "LogBuffer (fst (sendToLogs l (addToLogBuffer l p, tr))) = LogBuffer (addToLogBuffer l p)
   \<and> ProjectID (fst (sendToLogs l (addToLogBuffer l p, tr))) = ProjectID p
   \<and> ((snd (sendToLogs l (addToLogBuffer l p, tr))
          = tr @ [Emitted l (LogBuffer (addToLogBuffer l p))]
        \<and> queue (Logs (fst (sendToLogs l (addToLogBuffer l p, tr)))) = queue (Logs p) @ [l])
       \<or> (snd (sendToLogs l (addToLogBuffer l p, tr)) = tr
           \<and> Logs (fst (sendToLogs l (addToLogBuffer l p, tr))) = Logs p))
   \<and> (capacity (Logs p) \<le> length (queue (Logs p)) \<longrightarrow>
        snd (sendToLogs l (addToLogBuffer l p, tr)) = tr
        \<and> Logs (fst (sendToLogs l (addToLogBuffer l p, tr))) = Logs p)"
  by (simp add: sendToLogs_def safeSendLog_def Let_def addToLogBuffer_frame)

lemma append_then_send_ext:
  "\<exists>ext. snd (sendToLogs l (addToLogBuffer l p, tr)) = tr @ ext
         \<and> queue (Logs (fst (sendToLogs l (addToLogBuffer l p, tr))))
             = queue (Logs p) @ map emittedLine ext
         \<and> list_all appendedBefore ext"
proof -
  let ?c = "sendToLogs l (addToLogBuffer l p, tr)"
  from append_then_send [of l p tr]
  consider "snd ?c = tr @ [Emitted l (LogBuffer (addToLogBuffer l p))]
            \<and> queue (Logs (fst ?c)) = queue (Logs p) @ [l]"
    | "snd ?c = tr \<and> Logs (fst ?c) = Logs p"
    by blast
  then show ?thesis
  proof cases
    case 1
    then show ?thesis
      using addToLogBuffer_last [of l p]
      by (intro exI [of _ "[Emitted l (LogBuffer (addToLogBuffer l p))]"]) simp
  next
    case 2
    then show ?thesis by (intro exI [of _ "[]"]) simp
  qed
qed

lemma captureLine_ext:
  "\<exists>ext. snd (captureLine isStderr line (p, tr)) = tr @ ext
         \<and> queue (Logs (fst (captureLine isStderr line (p, tr))))
             = queue (Logs p) @ map emittedLine ext
         \<and> list_all appendedBefore ext"
proof (cases "stripANSI line = []")
  case True
  then show ?thesis by (intro exI [of _ "[]"]) (simp add: captureLine_def)
next
  case False
  then have "captureLine isStderr line (p, tr)
               = sendToLogs (formatLogLine isStderr (stripANSI line))
                   (addToLogBuffer (formatLogLine isStderr (stripANSI line)) p, tr)"
    by (simp add: captureLine_def Let_def)
  then show ?thesis using append_then_send_ext by simp
qed

lemma heap_saveLogsToDatabase: "heap (saveLogsToDatabase w i logs m) = heap m"
  by (simp add: saveLogsToDatabase_def Updates_def split: option.splits)

lemma captureLines_ext:
  "\<exists>ext. snd (captureLines w isStderr ref lastSaveTime lines (m, tr)) = tr @ ext
         \<and> queue (Logs (heap (fst (captureLines w isStderr ref lastSaveTime lines (m, tr))) ref))
             = queue (Logs (heap m ref)) @ map emittedLine ext
         \<and> list_all appendedBefore ext"
proof (induction lines arbitrary: m tr lastSaveTime)
  case Nil
  show ?case by (intro exI [of _ "[]"]) simp
next
  case (Cons tl lines)
  obtain t line where tl: "tl = (t, line)" by (cases tl)
  show ?case
  proof (cases "stripANSI line = []")
    case True
    then show ?thesis using Cons.IH [of lastSaveTime m tr] by (simp add: tl)
  next
    case False
    define c where "c = captureLine isStderr line (heap m ref, tr)"
    define m1 where "m1 = m\<lparr>heap := (heap m)(ref := fst c)\<rparr>"
    define m2 where "m2 = saveLogsToDatabase w (ProjectID (heap m1 ref))
                            (getLogBuffer (heap m1 ref)) m1"
    obtain e1 where e1: "snd c = tr @ e1"
        "queue (Logs (fst c)) = queue (Logs (heap m ref)) @ map emittedLine e1"
        "list_all appendedBefore e1"
      using captureLine_ext [of isStderr line "heap m ref" tr] unfolding c_def by blast
    have h1: "heap m1 ref = fst c" by (simp add: m1_def)
    have h2: "heap m2 ref = fst c" by (simp add: m2_def heap_saveLogsToDatabase h1)
    have step: "captureLines w isStderr ref lastSaveTime (tl # lines) (m, tr)
                  = (if t - lastSaveTime > 2000
                     then captureLines w isStderr ref t lines (m2, snd c)
                     else captureLines w isStderr ref lastSaveTime lines (m1, snd c))"
      using False by (simp add: tl Let_def c_def m1_def m2_def)
    show ?thesis
    proof (cases "t - lastSaveTime > 2000")
      case True
      obtain e2 where e2:
          "snd (captureLines w isStderr ref t lines (m2, snd c)) = snd c @ e2"
          "queue (Logs (heap (fst (captureLines w isStderr ref t lines (m2, snd c))) ref))
             = queue (Logs (heap m2 ref)) @ map emittedLine e2"
          "list_all appendedBefore e2"
        using Cons.IH [of t m2 "snd c"] by blast
      show ?thesis
        unfolding step using True e1 e2 h2
        by (intro exI [of _ "e1 @ e2"]) simp
    next
      case F2: False
      obtain e2 where e2:
          "snd (captureLines w isStderr ref lastSaveTime lines (m1, snd c)) = snd c @ e2"
          "queue (Logs (heap (fst (captureLines w isStderr ref lastSaveTime lines (m1, snd c))) ref))
             = queue (Logs (heap m1 ref)) @ map emittedLine e2"
          "list_all appendedBefore e2"
        using Cons.IH [of lastSaveTime m1 "snd c"] by blast
      show ?thesis
        unfolding step using F2 e1 e2 h1
        by (intro exI [of _ "e1 @ e2"]) simp
    qed
  qed
qed

lemma captureOutputWithBuffer_ext:
  "\<exists>ext. snd (captureOutputWithBuffer w isStderr ref start lines scanErr (m, tr)) = tr @ ext
         \<and> queue (Logs (heap (fst (captureOutputWithBuffer w isStderr ref start lines scanErr
                                     (m, tr))) ref))
             = queue (Logs (heap m ref)) @ map emittedLine ext
         \<and> list_all appendedBefore ext"
proof -
  define s1 where "s1 = captureLines w isStderr ref start lines (m, tr)"
  obtain e1 where e1: "snd s1 = tr @ e1"
      "queue (Logs (heap (fst s1) ref)) = queue (Logs (heap m ref)) @ map emittedLine e1"
      "list_all appendedBefore e1"
    using captureLines_ext [of w isStderr ref start lines m tr] unfolding s1_def by blast
  show ?thesis
  proof (cases scanErr)
    case None
    then have "snd (captureOutputWithBuffer w isStderr ref start lines scanErr (m, tr)) = snd s1"
        "heap (fst (captureOutputWithBuffer w isStderr ref start lines scanErr (m, tr))) ref
           = heap (fst s1) ref"
      by (simp_all add: captureOutputWithBuffer_def s1_def Let_def)
    then show ?thesis using e1 by (intro exI [of _ e1]) simp
  next
    case (Some err)
    define errorMsg where "errorMsg = ''[ERROR] Error reading output: '' @ err"
    define c where "c = sendToLogs errorMsg (addToLogBuffer errorMsg (heap (fst s1) ref), snd s1)"
    obtain e2 where e2: "snd c = snd s1 @ e2"
        "queue (Logs (fst c)) = queue (Logs (heap (fst s1) ref)) @ map emittedLine e2"
        "list_all appendedBefore e2"
      using append_then_send_ext [of errorMsg "heap (fst s1) ref" "snd s1"]
      unfolding c_def by blast
    have r: "snd (captureOutputWithBuffer w isStderr ref start lines scanErr (m, tr)) = snd c"
            "heap (fst (captureOutputWithBuffer w isStderr ref start lines scanErr (m, tr))) ref
               = fst c"
      unfolding c_def errorMsg_def s1_def
      by (simp_all add: captureOutputWithBuffer_def Some Let_def heap_saveLogsToDatabase)
    show ?thesis
      unfolding r using e1 e2 by (intro exI [of _ "e1 @ e2"]) simp
  qed
qed

text \<open>
  Claim C7. A run of the capturer \<open>captureOutputWithBuffer\<close> is followed from any manager,
  over any lines and with or without a scanner error, together with the record of its
  sends, which starts empty. Every send that the channel accepted, at the loop or at the
  line that reports the scanner error, was made when the ring was not empty and the line
  was its newest entry: the line had been appended before it was sent. The lines that the
  channel received during the run are exactly the lines of these sends, in order. When the
  channel's buffer is full, at either place, the send changes neither the channel nor
  the record (the line is dropped from the live stream), and the line is the newest entry
  of the ring. The capturer and \<open>safeSendLog\<close> are total functions: they return in every
  case, a full channel included. The run is that of one capturer in program order; what
  the other capturer of the handle does in between is not part of it.
\<close>

theorem capture_emits_after_append:
  "list_all appendedBefore
     (snd (captureOutputWithBuffer w isStderr ref start lines scanErr (m, [])))
   \<and> queue (Logs (heap (fst (captureOutputWithBuffer w isStderr ref start lines scanErr
                               (m, []))) ref))
       = queue (Logs (heap m ref))
           @ map emittedLine
               (snd (captureOutputWithBuffer w isStderr ref start lines scanErr (m, [])))
   \<and> (stripANSI line \<noteq> [] \<and> capacity (Logs p) \<le> length (queue (Logs p)) \<longrightarrow>
        snd (captureLine isStderr line (p, tr)) = tr
        \<and> Logs (fst (captureLine isStderr line (p, tr))) = Logs p
        \<and> last (LogBuffer (fst (captureLine isStderr line (p, tr))))
            = formatLogLine isStderr (stripANSI line))
   \<and> (capacity (Logs (heap m ref)) \<le> length (queue (Logs (heap m ref))) \<longrightarrow>
        snd (captureOutputWithBuffer w isStderr ref start [] (Some err) (m, tr)) = tr
        \<and> Logs (heap (fst (captureOutputWithBuffer w isStderr ref start [] (Some err)
                             (m, tr))) ref)
            = Logs (heap m ref)
        \<and> last (LogBuffer (heap (fst (captureOutputWithBuffer w isStderr ref start []
                                        (Some err) (m, tr))) ref))
            = ''[ERROR] Error reading output: '' @ err)"
proof (intro conjI impI)
  obtain ext where ext:
      "snd (captureOutputWithBuffer w isStderr ref start lines scanErr (m, [])) = [] @ ext"
      "queue (Logs (heap (fst (captureOutputWithBuffer w isStderr ref start lines scanErr
                                 (m, []))) ref))
         = queue (Logs (heap m ref)) @ map emittedLine ext"
      "list_all appendedBefore ext"
    using captureOutputWithBuffer_ext [of w isStderr ref start lines scanErr m "[]"] by blast
  show "list_all appendedBefore
          (snd (captureOutputWithBuffer w isStderr ref start lines scanErr (m, [])))"
    using ext by simp
  show "queue (Logs (heap (fst (captureOutputWithBuffer w isStderr ref start lines scanErr
                               (m, []))) ref))
       = queue (Logs (heap m ref))
           @ map emittedLine
               (snd (captureOutputWithBuffer w isStderr ref start lines scanErr (m, [])))"
    using ext by simp
next
  assume a: "stripANSI line \<noteq> [] \<and> capacity (Logs p) \<le> length (queue (Logs p))"
  define logLine where "logLine = formatLogLine isStderr (stripANSI line)"
  have c: "captureLine isStderr line (p, tr) = sendToLogs logLine (addToLogBuffer logLine p, tr)"
    using a by (simp add: captureLine_def Let_def logLine_def)
  show "snd (captureLine isStderr line (p, tr)) = tr"
    unfolding c using a append_then_send [of logLine p tr] by blast
  show "Logs (fst (captureLine isStderr line (p, tr))) = Logs p"
    unfolding c using a append_then_send [of logLine p tr] by blast
  show "last (LogBuffer (fst (captureLine isStderr line (p, tr))))
          = formatLogLine isStderr (stripANSI line)"
    unfolding c logLine_def [symmetric]
    using append_then_send [of logLine p tr] addToLogBuffer_last [of logLine p] by simp
next
  assume a: "capacity (Logs (heap m ref)) \<le> length (queue (Logs (heap m ref)))"
  define errorMsg where "errorMsg = ''[ERROR] Error reading output: '' @ err"
  define c where "c = sendToLogs errorMsg (addToLogBuffer errorMsg (heap m ref), tr)"
  have r: "snd (captureOutputWithBuffer w isStderr ref start [] (Some err) (m, tr)) = snd c"
          "heap (fst (captureOutputWithBuffer w isStderr ref start [] (Some err) (m, tr))) ref
             = fst c"
    unfolding c_def errorMsg_def
    by (simp_all add: captureOutputWithBuffer_def Let_def heap_saveLogsToDatabase)
  show "snd (captureOutputWithBuffer w isStderr ref start [] (Some err) (m, tr)) = tr"
    unfolding r c_def using a append_then_send [of errorMsg "heap m ref" tr] by blast
  show "Logs (heap (fst (captureOutputWithBuffer w isStderr ref start [] (Some err)
                             (m, tr))) ref)
            = Logs (heap m ref)"
    unfolding r c_def using a append_then_send [of errorMsg "heap m ref" tr] by blast
  show "last (LogBuffer (heap (fst (captureOutputWithBuffer w isStderr ref start []
                                        (Some err) (m, tr))) ref))
            = ''[ERROR] Error reading output: '' @ err"
    unfolding r c_def errorMsg_def [symmetric]
    using append_then_send [of errorMsg "heap m ref" tr]
      addToLogBuffer_last [of errorMsg "heap m ref"] by simp
qed

lemma stripANSI_hi: "stripANSI ''hi'' = ''hi''"
  by code_simp

lemma capture_example:
  "snd (captureOutputWithBuffer examplePlatform False 1 0 [(0, ''hi'')] (Some ''EOF'')
          (exampleManager, []))
     = [Emitted ''hi'' [''hi''],
        Emitted ''[ERROR] Error reading output: EOF''
          [''hi'', ''[ERROR] Error reading output: EOF'']]"
  by (simp add: captureOutputWithBuffer_def captureLine_def sendToLogs_def safeSendLog_def
        addToLogBuffer_def maxBufferSize_def formatLogLine_def stripANSI_hi Let_def
        exampleManager_def newProcessInfo_def heap_saveLogsToDatabase)

theorem capture_emits_after_append_witness:
  "list_all appendedBefore
     (snd (captureOutputWithBuffer examplePlatform False 1 0 [(0, ''hi'')] (Some ''EOF'')
             (exampleManager, [])))
   \<and> snd (captureOutputWithBuffer examplePlatform False 1 0 [(0, ''hi'')] (Some ''EOF'')
            (exampleManager, []))
       = [Emitted ''hi'' [''hi''],
          Emitted ''[ERROR] Error reading output: EOF''
            [''hi'', ''[ERROR] Error reading output: EOF'']]
   \<and> snd (captureLine False ''hi''
       (\<lparr>ProjectID = 1, Process = Some 42, Cancelled = False, StartTime = 0,
         Logs = \<lparr>queue = [''a''], capacity = 1, chan_closed = False\<rparr>,
         LogBuffer = [''a''], closed = False\<rparr>, [])) = []
   \<and> Logs (fst (captureLine False ''hi''
       (\<lparr>ProjectID = 1, Process = Some 42, Cancelled = False, StartTime = 0,
         Logs = \<lparr>queue = [''a''], capacity = 1, chan_closed = False\<rparr>,
         LogBuffer = [''a''], closed = False\<rparr>, [])))
       = \<lparr>queue = [''a''], capacity = 1, chan_closed = False\<rparr>
   \<and> last (LogBuffer (fst (captureLine False ''hi''
       (\<lparr>ProjectID = 1, Process = Some 42, Cancelled = False, StartTime = 0,
         Logs = \<lparr>queue = [''a''], capacity = 1, chan_closed = False\<rparr>,
         LogBuffer = [''a''], closed = False\<rparr>, [])))) = ''hi''"
proof -
  let ?p = "\<lparr>ProjectID = 1, Process = Some 42, Cancelled = False, StartTime = 0,
      Logs = \<lparr>queue = [''a''], capacity = 1, chan_closed = False\<rparr>,
      LogBuffer = [''a''], closed = False\<rparr>"
  have h0: "stripANSI ''hi'' \<noteq> [] \<and> capacity (Logs ?p) \<le> length (queue (Logs ?p))"
    by (simp add: stripANSI_hi)
  from capture_emits_after_append
         [of examplePlatform False 1 0 "[(0, ''hi'')]" "Some ''EOF''" exampleManager
             "''hi''" ?p "[]"]
  have t: "list_all appendedBefore
             (snd (captureOutputWithBuffer examplePlatform False 1 0 [(0, ''hi'')] (Some ''EOF'')
                     (exampleManager, [])))"
    and "stripANSI ''hi'' \<noteq> [] \<and> capacity (Logs ?p) \<le> length (queue (Logs ?p)) \<longrightarrow>
           snd (captureLine False ''hi'' (?p, [])) = []
           \<and> Logs (fst (captureLine False ''hi'' (?p, []))) = Logs ?p
           \<and> last (LogBuffer (fst (captureLine False ''hi'' (?p, []))))
               = formatLogLine False (stripANSI ''hi'')"
    by blast+
  with h0 have "snd (captureLine False ''hi'' (?p, [])) = []
           \<and> Logs (fst (captureLine False ''hi'' (?p, []))) = Logs ?p
           \<and> last (LogBuffer (fst (captureLine False ''hi'' (?p, []))))
               = formatLogLine False (stripANSI ''hi'')"
    by blast
  then have "snd (captureLine False ''hi'' (?p, [])) = []
           \<and> Logs (fst (captureLine False ''hi'' (?p, []))) = Logs ?p
           \<and> last (LogBuffer (fst (captureLine False ''hi'' (?p, [])))) = ''hi''"
    by (simp add: stripANSI_hi formatLogLine_def)
  then show ?thesis
    using t capture_example by simp
qed

section \<open>Properties of the manager's operations\<close>

lemma db_Updates:
  "db (Updates i f m) j = (if j = i then map_option f (db m i) else db m j)"
  by (simp add: Updates_def split: option.splits)

lemma frame_Updates:
  "processes (Updates i f m) = processes m \<and> heap (Updates i f m) = heap m
   \<and> next_ref (Updates i f m) = next_ref m \<and> goroutines (Updates i f m) = goroutines m"
  by (simp add: Updates_def split: option.splits)

lemma Marshal_not_empty_array: "logs \<noteq> [] \<Longrightarrow> Marshal w logs \<noteq> ''[]''"
  by (cases logs) (simp_all add: Marshal_def Join_def)

text \<open>
  Claim C9. Persisting an empty snapshot leaves the manager, and so the catalog, exactly
  as it was. A non-empty snapshot changes only column \<open>logs\<close> of the project's row, to the
  JSON array of the lines, which is not \<open>[]\<close>; every other column of the row, every other
  row, the map of handles and the handles themselves are unchanged.
\<close>

theorem saveLogs_frame:
  "saveLogsToDatabase w projectID [] m = m
   \<and> (logs \<noteq> [] \<longrightarrow>
        db (saveLogsToDatabase w projectID logs m) projectID
          = map_option (\<lambda>r. r\<lparr>Logs_col := Marshal w logs\<rparr>) (db m projectID)
        \<and> Marshal w logs \<noteq> ''[]''
        \<and> (\<forall>j. j \<noteq> projectID \<longrightarrow>
               db (saveLogsToDatabase w projectID logs m) j = db m j)
        \<and> processes (saveLogsToDatabase w projectID logs m) = processes m
        \<and> heap (saveLogsToDatabase w projectID logs m) = heap m)"
  by (simp add: saveLogsToDatabase_def db_Updates frame_Updates Marshal_not_empty_array)

theorem saveLogs_frame_witness:
  "saveLogsToDatabase examplePlatform 5 [] exampleManager = exampleManager
   \<and> db (saveLogsToDatabase examplePlatform 5 [''hi''] exampleManager) 5
       = Some (stoppedProject\<lparr>Logs_col := Marshal examplePlatform [''hi'']\<rparr>)
   \<and> db (saveLogsToDatabase examplePlatform 5 [''hi''] exampleManager) 7 = Some webProject"
  using saveLogs_frame [of examplePlatform 5 exampleManager "[''hi'']"]
  by (simp add: exampleManager_def)

text \<open>
  \<open>ForceKillService\<close> at its return: for a project that is in the catalog it returns
  success, whatever the host, the platform and the rest of the manager are; the row has
  status \<open>stopped\<close>, PID 0, last error \<open>Force killed\<close> and the time of the update as stop
  time; no handle is tracked for the project, and a handle that was tracked has been
  cancelled and its channel closed. The goroutines are as they were.
\<close>

lemma ForceKillService_at_return:
  assumes "db m projectID = Some p"
  shows "\<exists>h' m'. ForceKillService w projectID (h, m) = (Success, h', m')
           \<and> db m' projectID
               = Some (p\<lparr>Status := ''stopped'', StopTime := Some (now h'), PID := 0,
                         LastError := ''Force killed''\<rparr>)
           \<and> processes m' projectID = None
           \<and> goroutines m' = goroutines m
           \<and> (\<forall>ref. Process (heap m' ref) = Process (heap m ref)
                    \<and> ProjectID (heap m' ref) = ProjectID (heap m ref))
           \<and> (\<forall>ref. processes m projectID = Some ref \<longrightarrow>
                  Cancelled (heap m' ref) \<and> closed (heap m' ref))"
  using assms
  by (auto simp: ForceKillService_def Let_def db_Updates frame_Updates StatusStopped_def
        safeCloseChannel_def split: option.splits)

text \<open>
  The exit watcher, run on a manager in which the project of its handle has a row: the row
  gets the status and the last error that the result of \<open>Wait\<close> determines, PID 0 and the
  time of the step as stop time, whatever these columns were.
\<close>

lemma monitorProcess_row:
  assumes "db m (ProjectID (heap m ref)) = Some r"
  shows "db (snd (monitorProcess w ref (h, m))) (ProjectID (heap m ref))
           = Some (r\<lparr>Status := (case Wait_error w (Process (heap m ref)) h of
                                   None \<Rightarrow> ''stopped'' | Some e \<Rightarrow> ''error''),
                      StopTime := Some (now h), PID := 0,
                      LastError := (case Wait_error w (Process (heap m ref)) h of
                                      None \<Rightarrow> [] | Some e \<Rightarrow> e)\<rparr>)"
  using assms
  by (simp add: monitorProcess_def Let_def db_Updates StatusStopped_def StatusError_def
        split: option.splits)

text \<open>
  A successful \<open>StartService\<close> leaves a tracked handle of the project with its exit
  watcher among the goroutines.
\<close>

lemma StartService_installs_watcher:
  assumes "StartService w projectID (h, m) = (Success, h', m')"
  shows "\<exists>ref. processes m' projectID = Some ref \<and> ProjectID (heap m' ref) = projectID
               \<and> Monitor ref \<in> set (goroutines m')"
  using assms
  by (auto simp: StartService_def Let_def frame_Updates newProcessInfo_def
        split: if_splits option.splits sum.splits)

text \<open>
  Claim C3 fails on the code when a handle is tracked. \<open>ForceKillService\<close> returns success
  and at its return the row is as the claim says. A tracked handle has an exit watcher
  (\<open>monitorProcess\<close>, started with it by \<open>StartService\<close>); \<open>ForceKillService\<close> ends the
  child, which is what the watcher waits for, and leaves the watcher among the
  goroutines. When the watcher then runs, on whatever host, it writes the row again:
  status \<open>error\<close> and the text of the error of \<open>Wait\<close> as last error (or \<open>stopped\<close> and an
  empty last error when \<open>Wait\<close> returned none). The record is not left with last error
  \<open>Force killed\<close>.
\<close>

theorem ForceKill_undone_by_watcher:
  assumes "db m projectID = Some p"
      and "processes m projectID = Some ref"
      and "ProjectID (heap m ref) = projectID"
      and "Monitor ref \<in> set (goroutines m)"
  shows "\<exists>h1 m1. ForceKillService w projectID (h, m) = (Success, h1, m1)
           \<and> db m1 projectID
               = Some (p\<lparr>Status := ''stopped'', StopTime := Some (now h1), PID := 0,
                         LastError := ''Force killed''\<rparr>)
           \<and> Monitor ref \<in> set (goroutines m1)
           \<and> (\<forall>h2. db (snd (monitorProcess w ref (h2, m1))) projectID
                  = Some (p\<lparr>Status := (case Wait_error w (Process (heap m ref)) h2 of
                                          None \<Rightarrow> ''stopped'' | Some e \<Rightarrow> ''error''),
                            StopTime := Some (now h2), PID := 0,
                            LastError := (case Wait_error w (Process (heap m ref)) h2 of
                                            None \<Rightarrow> [] | Some e \<Rightarrow> e)\<rparr>))"
proof -
  obtain h1 m1 where r: "ForceKillService w projectID (h, m) = (Success, h1, m1)"
      "db m1 projectID
         = Some (p\<lparr>Status := ''stopped'', StopTime := Some (now h1), PID := 0,
                   LastError := ''Force killed''\<rparr>)"
      "goroutines m1 = goroutines m"
      "\<forall>ref. Process (heap m1 ref) = Process (heap m ref)
             \<and> ProjectID (heap m1 ref) = ProjectID (heap m ref)"
    using ForceKillService_at_return [OF assms(1), of w h] by blast
  have i: "ProjectID (heap m1 ref) = projectID" "Process (heap m1 ref) = Process (heap m ref)"
    using r(4) assms(3) by simp_all
  have "db (snd (monitorProcess w ref (h2, m1))) projectID
          = Some (p\<lparr>Status := (case Wait_error w (Process (heap m ref)) h2 of
                                  None \<Rightarrow> ''stopped'' | Some e \<Rightarrow> ''error''),
                    StopTime := Some (now h2), PID := 0,
                    LastError := (case Wait_error w (Process (heap m ref)) h2 of
                                    None \<Rightarrow> [] | Some e \<Rightarrow> e)\<rparr>)" for h2
    using monitorProcess_row [of m1 ref _ w h2] r(2) i by simp
  then show ?thesis using r assms(4) by simp
qed

theorem ForceKill_undone_by_watcher_witness:
  "fst (ForceKillService examplePlatform 9 (exampleHost, exampleManager)) = Success
   \<and> map_option (\<lambda>r. (Status r, PID r, LastError r))
        (db (snd (snd (ForceKillService examplePlatform 9 (exampleHost, exampleManager)))) 9)
       = Some (''stopped'', 0, ''Force killed'')
   \<and> map_option (\<lambda>r. (Status r, PID r, LastError r))
        (db (snd (monitorProcess examplePlatform 1
               (snd (ForceKillService examplePlatform 9 (exampleHost, exampleManager))))) 9)
       = Some (''error'', 0, ''signal: killed'')"
proof -
  have a: "db exampleManager 9 = Some workerProject" "processes exampleManager 9 = Some 1"
      "ProjectID (heap exampleManager 1) = 9" "Monitor 1 \<in> set (goroutines exampleManager)"
    by (simp_all add: exampleManager_def newProcessInfo_def)
  obtain h1 m1 where r:
      "ForceKillService examplePlatform 9 (exampleHost, exampleManager) = (Success, h1, m1)"
      "db m1 9 = Some (workerProject\<lparr>Status := ''stopped'', StopTime := Some (now h1),
                         PID := 0, LastError := ''Force killed''\<rparr>)"
      "\<forall>h2. db (snd (monitorProcess examplePlatform 1 (h2, m1))) 9
         = Some (workerProject\<lparr>Status := (case Wait_error examplePlatform
                                              (Process (heap exampleManager 1)) h2 of
                                          None \<Rightarrow> ''stopped'' | Some e \<Rightarrow> ''error''),
                   StopTime := Some (now h2), PID := 0,
                   LastError := (case Wait_error examplePlatform
                                        (Process (heap exampleManager 1)) h2 of
                                   None \<Rightarrow> [] | Some e \<Rightarrow> e)\<rparr>)"
    using ForceKill_undone_by_watcher [OF a, of examplePlatform exampleHost] by blast
  from r(3) have "db (snd (monitorProcess examplePlatform 1 (h1, m1))) 9
         = Some (workerProject\<lparr>Status := ''error'', StopTime := Some (now h1), PID := 0,
                   LastError := ''signal: killed''\<rparr>)"
    by (simp add: examplePlatform_def)
  then show ?thesis using r(1,2) by simp
qed

text \<open>
  Claim C4. For a project that is in the catalog, with no handle tracked and a persisted
  PID that is not positive or does not answer the probe that \<open>StopService\<close> makes
  (\<open>os.FindProcess\<close>, then \<open>Signal(os.Signal(nil))\<close>), \<open>StopService\<close> returns success
  and changes only the project's row: status \<open>stopped\<close>, PID 0 and the time of the call
  as stop time. Calling \<open>StopService\<close> again in the resulting state, on any host, is again
  a success with the same record but for the stop time.
\<close>

theorem Stop_idempotent:
  assumes "db m projectID = Some p"
      and "processes m projectID = None"
      and "PID p \<le> 0 \<or> \<not> FindProcess_ok h (PID p) \<or> \<not> Process_Signal h (PID p) None"
  shows "StopService w projectID (h, m)
           = (Success, h,
              m\<lparr>db := (db m)(projectID \<mapsto>
                     p\<lparr>Status := ''stopped'', StopTime := Some (now h), PID := 0\<rparr>)\<rparr>)
       \<and> StopService w projectID
            (h2, m\<lparr>db := (db m)(projectID \<mapsto>
                     p\<lparr>Status := ''stopped'', StopTime := Some (now h), PID := 0\<rparr>)\<rparr>)
           = (Success, h2,
              m\<lparr>db := (db m)(projectID \<mapsto>
                     p\<lparr>Status := ''stopped'', StopTime := Some (now h2), PID := 0\<rparr>)\<rparr>)"
  using assms
  by (auto simp: StopService_def Let_def Updates_def StatusStopped_def)

theorem Stop_idempotent_witness:
  "fst (StopService examplePlatform 7
          (exampleHost, exampleManager\<lparr>processes := (\<lambda>i. None)\<rparr>)) = Success
   \<and> fst (StopService examplePlatform 7
        (exampleHost\<lparr>now := 9000\<rparr>,
         exampleManager\<lparr>processes := (\<lambda>i. None),
           db := (db exampleManager)(7 \<mapsto>
             webProject\<lparr>Status := ''stopped'', StopTime := Some (now exampleHost),
                         PID := 0\<rparr>)\<rparr>)) = Success"
proof -
  have "db (exampleManager\<lparr>processes := (\<lambda>i. None)\<rparr>) 7 = Some webProject"
       "processes (exampleManager\<lparr>processes := (\<lambda>i. None)\<rparr>) 7 = None"
       "PID webProject \<le> 0 \<or> \<not> FindProcess_ok exampleHost (PID webProject)
        \<or> \<not> Process_Signal exampleHost (PID webProject) None"
    by (simp_all add: exampleManager_def Process_Signal_def)
  from Stop_idempotent [OF this, of examplePlatform "exampleHost\<lparr>now := 9000\<rparr>"]
  show ?thesis by simp
qed

lemma isPortInUse_iff:
  "isPortInUse h port =
     (lsof_listen_ok h port \<or> lsof_ok h port
      \<or> (\<exists>output. netstat_an h = Some output \<and> listensOn output port)
      \<or> (\<exists>output. ss_an h = Some output \<and> listensOn output port))"
  by (auto simp: isPortInUse_def split: option.splits)

text \<open>
  The probe that the manager makes, \<open>Signal(os.Signal(nil))\<close>, is answered by no process,
  on any host.
\<close>

lemma Process_Signal_nil: "\<not> Process_Signal h pid None"
  by (simp add: Process_Signal_def)

text \<open>
  What \<open>IsServiceRunning\<close> computes: the handle and the answer of the persisted PID play
  no part in it.
\<close>

lemma IsServiceRunning_computes:
  "IsServiceRunning h m projectID =
     (\<exists>project. db m projectID = Some project
        \<and> ((Port project > 0 \<and> isPortInUse h (Port project))
            \<or> (PID project > 0 \<and> hasChildProcesses h (PID project))))"
  by (auto simp: IsServiceRunning_def Process_Signal_nil split: option.splits)

text \<open>
  The lines of \<open>netstat -an\<close> and \<open>ss -an\<close> are searched for the text \<open>:port\<close>: a socket that
  listens on port 8080 makes port 80 count as in use.
\<close>

lemma Itoa_80: "Itoa 80 = ''80''"
  by code_simp

lemma listensOn_longer_port: "listensOn ''tcp 0 0 0.0.0.0:8080 0.0.0.0:* LISTEN'' 80"
  unfolding listensOn_def Itoa_80 by code_simp

text \<open>
  Claim C1 fails on the code. Let a handle be tracked whose child answers a signal-0
  probe, which is the first condition of the claim, and let the persisted PID be that of
  the child, which \<open>os.FindProcess\<close> finds, so that the third condition holds as well; let
  the project have no port in use and let the child have no children. Then
  \<open>IsServiceRunning\<close> returns false. The probe it makes, at the handle (l.596) and at the
  persisted PID (l.626), is \<open>Signal(os.Signal(nil))\<close>; the comments call it a check that
  the process is still alive (l.595) and, at the same probe in \<open>StopService\<close> (l.223), a
  signal 0 that only checks existence. \<open>Process.Signal\<close> refuses the nil signal, so
  neither probe is ever answered. (The child check is made for a positive persisted PID
  only; PID 0 is what the manager writes when no process is recorded.)
\<close>

theorem IsServiceRunning_misses_live_child:
  assumes "processes m projectID = Some ref"
      and "Process (heap m ref) = Some pid"
      and "Process_Signal h pid (Some (syscall_Signal 0))"
      and "db m projectID = Some project"
      and "PID project = pid" and "pid > 0" and "FindProcess_ok h pid"
      and "\<not> (Port project > 0 \<and> isPortInUse h (Port project))"
      and "\<not> hasChildProcesses h pid"
  shows "\<not> IsServiceRunning h m projectID"
  using assms by (simp add: IsServiceRunning_computes)

theorem IsServiceRunning_misses_live_child_witness:
  "Process (heap exampleManager 1) = Some 4242
   \<and> Process_Signal exampleHost 4242 (Some (syscall_Signal 0))
   \<and> \<not> IsServiceRunning exampleHost exampleManager 9"
proof -
  have a: "processes exampleManager 9 = Some 1" "Process (heap exampleManager 1) = Some 4242"
      "Process_Signal exampleHost 4242 (Some (syscall_Signal 0))"
      "db exampleManager 9 = Some workerProject" "PID workerProject = 4242" "(4242::int) > 0"
      "FindProcess_ok exampleHost 4242"
      "\<not> (Port workerProject > 0 \<and> isPortInUse exampleHost (Port workerProject))"
      "\<not> hasChildProcesses exampleHost 4242"
    by (simp_all add: exampleManager_def exampleHost_def workerProject_def newProcessInfo_def
          Process_Signal_def hasChildProcesses_def)
  from IsServiceRunning_misses_live_child [OF a] a(2,3) show ?thesis by simp
qed

section \<open>Properties of the assembled environment\<close>

lemma key_prefix_unique:
  assumes "CHR ''='' \<notin> set k" "CHR ''='' \<notin> set k'"
      and "HasPrefix e (k @ ''='')" "HasPrefix e (k' @ ''='')"
  shows "k = k'"
proof -
  have "prefix (k @ ''='') (k' @ ''='') \<or> prefix (k' @ ''='') (k @ ''='')"
    using assms(3,4) prefix_same_cases unfolding HasPrefix_def by blast
  then show ?thesis
  proof
    assume "prefix (k @ ''='') (k' @ ''='')"
    then have "k @ ''='' = k' @ ''='' \<or> prefix (k @ ''='') k'"
      by (simp add: prefix_snoc)
    then show ?thesis
    proof
      assume "prefix (k @ ''='') k'"
      then have "set (k @ ''='') \<subseteq> set k'" by (rule set_mono_prefix)
      with assms(2) show ?thesis by simp
    qed simp
  next
    assume "prefix (k' @ ''='') (k @ ''='')"
    then have "k' @ ''='' = k @ ''='' \<or> prefix (k' @ ''='') k"
      by (simp add: prefix_snoc)
    then show ?thesis
    proof
      assume "prefix (k' @ ''='') k"
      then have "set (k' @ ''='') \<subseteq> set k" by (rule set_mono_prefix)
      with assms(1) show ?thesis by simp
    qed simp
  qed
qed

lemma entry_has_key:
  assumes "CHR ''='' \<notin> set k" "CHR ''='' \<notin> set k'"
  shows "HasPrefix (k' @ ''='' @ v) (k @ ''='') = (k = k')"
proof
  assume "HasPrefix (k' @ ''='' @ v) (k @ ''='')"
  moreover have "HasPrefix (k' @ ''='' @ v) (k' @ ''='')" by (simp add: HasPrefix_def)
  ultimately show "k = k'" using key_prefix_unique assms by blast
next
  assume "k = k'"
  then show "HasPrefix (k' @ ''='' @ v) (k @ ''='')" by (simp add: HasPrefix_def)
qed

lemma entriesOf_append: "entriesOf k (xs @ ys) = entriesOf k xs @ entriesOf k ys"
  by (simp add: entriesOf_def)

lemma entriesOf_removeEnvVar:
  assumes "CHR ''='' \<notin> set k" "CHR ''='' \<notin> set k'"
  shows "entriesOf k (removeEnvVar env k') = (if k = k' then [] else entriesOf k env)"
proof (cases "k = k'")
  case True
  then show ?thesis by (simp add: entriesOf_def removeEnvVar_def)
next
  case False
  have "HasPrefix e (k @ ''='') \<and> \<not> HasPrefix e (k' @ ''='') \<longleftrightarrow> HasPrefix e (k @ ''='')" for e
    using key_prefix_unique [OF assms] False by blast
  then show ?thesis using False
    by (simp add: entriesOf_def removeEnvVar_def conj_commute)
qed

lemma entriesOf_entry:
  assumes "CHR ''='' \<notin> set k" "CHR ''='' \<notin> set k'"
  shows "entriesOf k [k' @ ''='' @ v] = (if k = k' then [k' @ ''='' @ v] else [])"
  using entry_has_key [OF assms] by (simp add: entriesOf_def)

lemma entriesOf_mergeEnvVars:
  assumes "CHR ''='' \<notin> set k"
      and "distinct (map fst kvs)"
      and "\<forall>k'\<in>fst ` set kvs. CHR ''='' \<notin> set k'"
  shows "entriesOf k (mergeEnvVars env kvs) =
           (case map_of kvs k of Some v \<Rightarrow> [k @ ''='' @ v] | None \<Rightarrow> entriesOf k env)"
  using assms(2,3)
proof (induction kvs arbitrary: env)
  case Nil
  then show ?case by simp
next
  case (Cons kv kvs)
  obtain k' v' where kv: "kv = (k', v')" by (cases kv)
  have k': "CHR ''='' \<notin> set k'" using Cons.prems(2) kv by simp
  have d: "distinct (map fst kvs)" "\<forall>k'\<in>fst ` set kvs. CHR ''='' \<notin> set k'"
    using Cons.prems by simp_all
  have nk: "map_of kvs k' = None" using Cons.prems(1) kv
    by (simp add: map_of_eq_None_iff)
  have step: "entriesOf k (removeEnvVar env k' @ [k' @ ''='' @ v']) =
                (if k = k' then [k @ ''='' @ v'] else entriesOf k env)"
    using entriesOf_removeEnvVar [OF assms(1) k'] entriesOf_entry [OF assms(1) k']
    by (simp add: entriesOf_append)
  show ?case
    using Cons.IH [OF d, of "removeEnvVar env k' @ [k' @ ''='' @ v']"] step nk kv
    by (auto split: option.splits)
qed

lemma range_order_perm:
  assumes "\<And>xs. mset (range_order w xs) = mset xs" "distinct (map fst kvs)"
  shows "distinct (map fst (range_order w kvs))"
    and "set (range_order w kvs) = set kvs"
    and "map_of (range_order w kvs) = map_of kvs"
proof -
  have "mset (map fst (range_order w kvs)) = mset (map fst kvs)"
    using assms(1) [of kvs] by (metis mset_map)
  then show d: "distinct (map fst (range_order w kvs))"
    using assms(2) mset_eq_imp_distinct_iff by blast
  show s: "set (range_order w kvs) = set kvs"
    using assms(1) [of kvs] by (rule mset_eq_setD)
  show "map_of (range_order w kvs) = map_of kvs"
    using d assms(2) s by (simp add: map_of_inject_set)
qed

lemma Index_first: "Index s [c] = Some i \<Longrightarrow> c \<notin> set (take i s)"
proof (induction s arbitrary: i)
  case Nil
  then show ?case by simp
next
  case (Cons a s)
  then show ?case
    by (cases "a = c") (auto simp: HasPrefix_def)
qed

lemma keys_update: "fst ` set (AList.update k v al) = insert k (fst ` set al)"
  by (simp add: dom_update)

lemma loadEnvLine_inv:
  assumes "distinct (map fst envVars)" "\<forall>k\<in>fst ` set envVars. CHR ''='' \<notin> set k"
  shows "distinct (map fst (loadEnvLine envVars line))
       \<and> (\<forall>k\<in>fst ` set (loadEnvLine envVars line). CHR ''='' \<notin> set k)"
proof (cases "Index (TrimSpace line) ''=''")
  case None
  then show ?thesis using assms by (simp add: loadEnvLine_def Let_def SplitN2_def)
next
  case (Some i)
  define key where "key = TrimSpace (take i (TrimSpace line))"
  define val where "val = unquote (TrimSpace (drop (i + length ''='') (TrimSpace line)))"
  have "CHR ''='' \<notin> set (take i (TrimSpace line))" using Some by (rule Index_first)
  then have k: "CHR ''='' \<notin> set key"
    unfolding key_def using set_TrimSpace by blast
  have u: "distinct (map fst (AList.update key val envVars))
           \<and> (\<forall>k\<in>fst ` set (AList.update key val envVars). CHR ''='' \<notin> set k)"
    unfolding keys_update using assms k by (simp add: distinct_update)
  have "loadEnvLine envVars line = envVars
        \<or> loadEnvLine envVars line = AList.update key val envVars"
    using Some by (simp add: loadEnvLine_def Let_def SplitN2_def key_def val_def)
  then show ?thesis using u assms by metis
qed

lemma foldl_loadEnvLine_inv:
  "distinct (map fst envVars) \<Longrightarrow> \<forall>k\<in>fst ` set envVars. CHR ''='' \<notin> set k \<Longrightarrow>
   distinct (map fst (foldl loadEnvLine envVars ls))
   \<and> (\<forall>k\<in>fst ` set (foldl loadEnvLine envVars ls). CHR ''='' \<notin> set k)"
proof (induction ls arbitrary: envVars)
  case Nil
  then show ?case by simp
next
  case (Cons l ls)
  note inv = loadEnvLine_inv [OF Cons.prems, of l]
  have "distinct (map fst (foldl loadEnvLine (loadEnvLine envVars l) ls))
        \<and> (\<forall>k\<in>fst ` set (foldl loadEnvLine (loadEnvLine envVars l) ls). CHR ''='' \<notin> set k)"
    by (rule Cons.IH [OF conjunct1 [OF inv] conjunct2 [OF inv]])
  then show ?case by simp
qed

lemma loadEnvFile_inv:
  "distinct (map fst (loadEnvFile h path))
   \<and> (\<forall>k\<in>fst ` set (loadEnvFile h path). CHR ''='' \<notin> set k)"
proof (cases "ReadFile h path")
  case None
  then show ?thesis by (simp add: loadEnvFile_def)
next
  case (Some content)
  have "distinct (map fst ([] :: (string \<times> string) list))"
       "\<forall>k\<in>fst ` set ([] :: (string \<times> string) list). CHR ''='' \<notin> set k"
    by simp_all
  then show ?thesis
    unfolding loadEnvFile_def Some option.case
    by (rule foldl_loadEnvLine_inv)
qed

lemma foldl_update_distinct:
  "distinct (map fst acc) \<Longrightarrow>
   distinct (map fst (foldl (\<lambda>envVars kv. AList.update (fst kv) (f (snd kv)) envVars) acc xs))"
  by (induction xs arbitrary: acc) (simp_all add: distinct_update)

lemma parseEnvVarsJSON_distinct: "distinct (map fst (parseEnvVarsJSON w s))"
proof (cases "json_Unmarshal w s")
  case None
  then show ?thesis by (simp add: parseEnvVarsJSON_def)
next
  case (Some jsonMap)
  have "distinct (map fst ([] :: (string \<times> string) list))" by simp
  then show ?thesis
    unfolding parseEnvVarsJSON_def Some option.case
    by (rule foldl_update_distinct)
qed

lemma fileVars_inv:
  "distinct (map fst (fileVars w h p)) \<and> (\<forall>k\<in>fst ` set (fileVars w h p). CHR ''='' \<notin> set k)"
proof (cases "envFilePath w p = []")
  case True
  then show ?thesis by (simp add: fileVars_def)
next
  case False
  then have "fileVars w h p = loadEnvFile h (envFilePath w p)" by (simp add: fileVars_def)
  then show ?thesis using loadEnvFile_inv [of h "envFilePath w p"] by metis
qed

lemma jsonVars_distinct: "distinct (map fst (jsonVars w p))"
  using parseEnvVarsJSON_distinct by (simp add: jsonVars_def)

lemma list_ex_entriesOf: "list_ex (\<lambda>e. HasPrefix e (k @ ''='')) env = (entriesOf k env \<noteq> [])"
  by (simp add: entriesOf_def list_ex_iff filter_empty_conv)

lemma no_eq_PORT: "CHR ''='' \<notin> set ''PORT''" "CHR ''='' \<notin> set ''ENVIRONMENT''"
  by simp_all

text \<open>
  Claim C2. On a platform whose \<open>range\<close> visits every entry of a map once, and for an
  inline JSON whose keys contain no \<open>=\<close>, the entries named \<open>k\<close> (a name without \<open>=\<close>)
  of the environment assembled for the child are: the one entry \<open>k=v\<close> with \<open>v\<close> the
  value of \<open>k\<close> in the inline JSON, if it has one; otherwise the one entry with its value
  in the env file, if it has one; otherwise the entries inherited from the supervisor's
  environment, followed for \<open>k = PORT\<close> by \<open>PORT=<port>\<close> when no \<open>PORT\<close> entry was
  inherited and the port is \<open>> 0\<close>, and for \<open>k = ENVIRONMENT\<close> by \<open>ENVIRONMENT=<tag>\<close>
  when no \<open>ENVIRONMENT\<close> entry was inherited and the tag is not empty.
\<close>

theorem prepareEnvironment_precedence:
  assumes perm: "\<And>xs. mset (range_order w xs) = mset xs"
      and k: "CHR ''='' \<notin> set k"
      and jk: "\<forall>k'\<in>fst ` set (jsonVars w p). CHR ''='' \<notin> set k'"
  shows "entriesOf k (prepareEnvironment w h p) =
           (case map_of (jsonVars w p) k of
              Some v \<Rightarrow> [k @ ''='' @ v]
            | None \<Rightarrow>
                (case map_of (fileVars w h p) k of
                   Some v \<Rightarrow> [k @ ''='' @ v]
                 | None \<Rightarrow>
                     entriesOf k (Environ h)
                     @ (if k = ''PORT'' \<and> entriesOf ''PORT'' (Environ h) = [] \<and> Port p > 0
                        then [''PORT='' @ Itoa (Port p)] else [])
                     @ (if k = ''ENVIRONMENT'' \<and> entriesOf ''ENVIRONMENT'' (Environ h) = []
                           \<and> Environment p \<noteq> []
                        then [''ENVIRONMENT='' @ Environment p] else [])))"
proof -
  define portEntry where "portEntry = ''PORT='' @ Itoa (Port p)"
  define envEntry where "envEntry = ''ENVIRONMENT='' @ Environment p"
  define env1 where "env1 = mergeEnvVars (Environ h) (range_order w (fileVars w h p))"
  define env2 where "env2 = mergeEnvVars env1 (range_order w (jsonVars w p))"
  define env3 where "env3 = (if \<not> list_ex (\<lambda>e. HasPrefix e ''PORT='') env2 \<and> Port p > 0
                             then env2 @ [portEntry] else env2)"
  have empty: "range_order w [] = []" using perm [of "[]"] by simp
  have e1: "(if envFilePath w p \<noteq> []
             then mergeEnvVars (Environ h) (range_order w (loadEnvFile h (envFilePath w p)))
             else Environ h) = env1"
    by (simp add: env1_def fileVars_def empty)
  have e2: "(if EnvVars p \<noteq> []
             then mergeEnvVars env1 (range_order w (parseEnvVarsJSON w (EnvVars p)))
             else env1) = env2"
    by (simp add: env2_def jsonVars_def empty)
  have res: "prepareEnvironment w h p =
               (if \<not> list_ex (\<lambda>e. HasPrefix e ''ENVIRONMENT='') env3 \<and> Environment p \<noteq> []
                then env3 @ [envEntry] else env3)"
    by (simp only: prepareEnvironment_def Let_def e1 e2 env3_def portEntry_def envEntry_def)
  note fi = fileVars_inv [of w h p]
  have fo: "distinct (map fst (range_order w (fileVars w h p)))"
           "set (range_order w (fileVars w h p)) = set (fileVars w h p)"
           "map_of (range_order w (fileVars w h p)) = map_of (fileVars w h p)"
    using range_order_perm [OF perm, of "fileVars w h p"] fi by blast+
  have jo: "distinct (map fst (range_order w (jsonVars w p)))"
           "set (range_order w (jsonVars w p)) = set (jsonVars w p)"
           "map_of (range_order w (jsonVars w p)) = map_of (jsonVars w p)"
    using range_order_perm [OF perm, of "jsonVars w p"] jsonVars_distinct by blast+
  have m1: "entriesOf k' env1 =
              (case map_of (fileVars w h p) k' of
                 Some v \<Rightarrow> [k' @ ''='' @ v] | None \<Rightarrow> entriesOf k' (Environ h))"
    if "CHR ''='' \<notin> set k'" for k'
    unfolding env1_def
    using entriesOf_mergeEnvVars [OF that fo(1), of "Environ h"] fi
    unfolding fo by blast
  have m2: "entriesOf k' env2 =
              (case map_of (jsonVars w p) k' of
                 Some v \<Rightarrow> [k' @ ''='' @ v] | None \<Rightarrow> entriesOf k' env1)"
    if "CHR ''='' \<notin> set k'" for k'
    unfolding env2_def
    using entriesOf_mergeEnvVars [OF that jo(1), of env1] jk
    unfolding jo by blast
  have ps: "list_ex (\<lambda>e. HasPrefix e ''PORT='') env = (entriesOf ''PORT'' env \<noteq> [])" for env
    using list_ex_entriesOf [of "''PORT''" env] by simp
  have es: "list_ex (\<lambda>e. HasPrefix e ''ENVIRONMENT='') env = (entriesOf ''ENVIRONMENT'' env \<noteq> [])"
    for env
    using list_ex_entriesOf [of "''ENVIRONMENT''" env] by simp
  have pe: "entriesOf k' [portEntry] = (if k' = ''PORT'' then [portEntry] else [])"
    if "CHR ''='' \<notin> set k'" for k'
    unfolding portEntry_def
    using entriesOf_entry [OF that no_eq_PORT(1), of "Itoa (Port p)"] by simp
  have ee: "entriesOf k' [envEntry] = (if k' = ''ENVIRONMENT'' then [envEntry] else [])"
    if "CHR ''='' \<notin> set k'" for k'
    unfolding envEntry_def
    using entriesOf_entry [OF that no_eq_PORT(2), of "Environment p"] by simp
  have p3: "entriesOf k' env3 =
              entriesOf k' env2
              @ (if k' = ''PORT'' \<and> entriesOf ''PORT'' env2 = [] \<and> Port p > 0
                 then [portEntry] else [])"
    if "CHR ''='' \<notin> set k'" for k'
    unfolding env3_def ps by (simp add: entriesOf_append pe [OF that] pe [OF no_eq_PORT(1)])
  have p4: "entriesOf k (prepareEnvironment w h p) =
              entriesOf k env3
              @ (if k = ''ENVIRONMENT'' \<and> entriesOf ''ENVIRONMENT'' env3 = []
                    \<and> Environment p \<noteq> []
                 then [envEntry] else [])"
    unfolding res es by (simp add: entriesOf_append ee [OF k] ee [OF no_eq_PORT(2)])
  have e3: "entriesOf ''ENVIRONMENT'' env3 = entriesOf ''ENVIRONMENT'' env2"
    using p3 [OF no_eq_PORT(2)] by simp
  have goal: "entriesOf k (prepareEnvironment w h p) =
           (case map_of (jsonVars w p) k of
              Some v \<Rightarrow> [k @ ''='' @ v]
            | None \<Rightarrow>
                (case map_of (fileVars w h p) k of
                   Some v \<Rightarrow> [k @ ''='' @ v]
                 | None \<Rightarrow>
                     entriesOf k (Environ h)
                     @ (if k = ''PORT'' \<and> entriesOf ''PORT'' (Environ h) = [] \<and> Port p > 0
                        then [portEntry] else [])
                     @ (if k = ''ENVIRONMENT'' \<and> entriesOf ''ENVIRONMENT'' (Environ h) = []
                           \<and> Environment p \<noteq> []
                        then [envEntry] else [])))"
  proof (cases "map_of (jsonVars w p) k")
    case (Some v)
    then have "entriesOf k env2 = [k @ ''='' @ v]" using m2 [OF k] by simp
    then show ?thesis using Some p4 p3 [OF k] e3 by auto
  next
    case None
    note jn = None
    show ?thesis
    proof (cases "map_of (fileVars w h p) k")
      case (Some v)
      then have "entriesOf k env2 = [k @ ''='' @ v]" using m2 [OF k] m1 [OF k] jn by simp
      then show ?thesis using Some jn p4 p3 [OF k] e3 by auto
    next
      case None
      then have "entriesOf k env2 = entriesOf k (Environ h)"
        using m2 [OF k] m1 [OF k] jn by simp
      then show ?thesis using None jn p4 p3 [OF k] e3 by auto
    qed
  qed
  then show ?thesis unfolding portEntry_def envEntry_def .
qed

lemma jsonVars_example: "jsonVars examplePlatform webProject = [(''A'', ''3'')]"
  by code_simp

lemma fileVars_example:
  "fileVars examplePlatform exampleHost webProject = [(''A'', ''2''), (''B'', ''2'')]"
  by code_simp

lemma Itoa_8080: "Itoa 8080 = ''8080''"
  by code_simp

theorem prepareEnvironment_precedence_witness:
  "entriesOf ''A'' (prepareEnvironment examplePlatform exampleHost webProject) = [''A=3'']
   \<and> entriesOf ''B'' (prepareEnvironment examplePlatform exampleHost webProject) = [''B=2'']
   \<and> entriesOf ''C'' (prepareEnvironment examplePlatform exampleHost webProject) = [''C=1'']
   \<and> entriesOf ''PORT'' (prepareEnvironment examplePlatform exampleHost webProject)
       = [''PORT=8080'']"
proof -
  have perm: "\<And>xs. mset (range_order examplePlatform xs) = mset xs"
    by (simp add: examplePlatform_def)
  have jk: "\<forall>k'\<in>fst ` set (jsonVars examplePlatform webProject). CHR ''='' \<notin> set k'"
    by (simp add: jsonVars_example)
  have env: "Environ exampleHost = [''A=1'', ''B=1'', ''C=1'']"
    by (simp add: exampleHost_def)
  have port: "Port webProject = 8080" "Environment webProject = ''development''"
    by (simp_all add: webProject_def)
  have a: "entriesOf ''A'' (prepareEnvironment examplePlatform exampleHost webProject) = [''A=3'']"
    using prepareEnvironment_precedence [OF perm _ jk, of "''A''" exampleHost]
    by (simp add: jsonVars_example)
  have b: "entriesOf ''B'' (prepareEnvironment examplePlatform exampleHost webProject) = [''B=2'']"
    using prepareEnvironment_precedence [OF perm _ jk, of "''B''" exampleHost]
    by (simp add: jsonVars_example fileVars_example)
  have c: "entriesOf ''C'' (prepareEnvironment examplePlatform exampleHost webProject) = [''C=1'']"
    using prepareEnvironment_precedence [OF perm _ jk, of "''C''" exampleHost]
    by (simp add: jsonVars_example fileVars_example env entriesOf_def HasPrefix_def)
  have d: "entriesOf ''PORT'' (prepareEnvironment examplePlatform exampleHost webProject)
             = [''PORT=8080'']"
    using prepareEnvironment_precedence [OF perm _ jk, of "''PORT''" exampleHost]
    by (simp add: jsonVars_example fileVars_example env port Itoa_8080 entriesOf_def HasPrefix_def)
  show ?thesis using a b c d by (intro conjI)
qed

section \<open>Properties of the child's command\<close>

lemma Fields_blank: "Fields '' '' = []"
  by code_simp

text \<open>
  Claim C10 fails on the code. A command of white space only is not the empty string, so
  \<open>prepareCommand\<close> splits it; \<open>strings.Fields\<close> returns no field, \<open>len(parts) > 1\<close> is
  false, and \<open>parts[0]\<close> is read out of range: the function panics. In \<open>StartService\<close>
  the panic leaves the row with status \<open>starting\<close>.
\<close>

theorem prepareCommand_blank_panics:
  "prepareCommand w (p\<lparr>Command := '' ''\<rparr>) = Inl IndexOutOfRange"
  by (simp add: prepareCommand_def Fields_blank)

theorem prepareCommand_blank_panics_witness:
  "StartService examplePlatform 5
     (exampleHost,
      exampleManager\<lparr>db := (db exampleManager)(5 \<mapsto> stoppedProject\<lparr>Command := '' ''\<rparr>)\<rparr>)
   = (Panic, exampleHost,
      exampleManager\<lparr>db := (db exampleManager)
        (5 \<mapsto> stoppedProject\<lparr>Command := '' '', Status := ''starting''\<rparr>)\<rparr>)"
  using prepareCommand_blank_panics [of examplePlatform stoppedProject]
  by (simp add: StartService_def exampleManager_def Updates_def StatusStarting_def)


end
